theory Spec2Isabelle
  imports Main "HOL-Library.Char_ord" "HOL-Library.List_Lexorder" "HOL-Library.Product_Lexorder"
begin

section \<open>Cells and text\<close>

text \<open>
  A raw cell of the uploaded table is either a piece of text or one of the three missing
  values of pandas. Numeric cells are represented by the text that \<open>astype(str)\<close> gives
  for them (a float \<open>123.0\<close> is \<open>Text ''123.0''\<close>). A character is a code point below
  256, so \<open>string\<close> covers the Latin-1 part of Python's \<open>str\<close>.
\<close>

datatype cell = Text string | NaN | PyNone | NaT

fun astype_str :: "cell \<Rightarrow> string" where
  "astype_str (Text s) = s"
| "astype_str NaN = ''nan''"
| "astype_str PyNone = ''None''"
| "astype_str NaT = ''NaT''"

text \<open>\<open>str.isspace\<close> on the code points below 256.\<close>

definition is_space :: "char \<Rightarrow> bool" where
  "is_space c =
     (let n = (of_char c :: nat)
      in (9 \<le> n \<and> n \<le> 13) \<or> (28 \<le> n \<and> n \<le> 32) \<or> n = 133 \<or> n = 160)"

text \<open>\<open>str.lower\<close> on one code point below 256: A-Z and the accented capitals
  0xC0-0xDE (the multiplication sign 0xD7 apart) move up by 32.\<close>

definition lower_char :: "char \<Rightarrow> char" where
  "lower_char c =
     (let n = (of_char c :: nat)
      in if (65 \<le> n \<and> n \<le> 90) \<or> (192 \<le> n \<and> n \<le> 222 \<and> n \<noteq> 215)
         then char_of (n + 32) else c)"

definition lower :: "string \<Rightarrow> string" where
  "lower s = map lower_char s"

definition lstrip :: "string \<Rightarrow> string" where
  "lstrip s = dropWhile is_space s"

definition rstrip :: "string \<Rightarrow> string" where
  "rstrip s = rev (dropWhile is_space (rev s))"

definition strip :: "string \<Rightarrow> string" where
  "strip s = rstrip (lstrip s)"

text \<open>\<open>Series.replace\<close> with a dict: every value that is a key is replaced by the key's
  value, all keys looked up in the original value. With a list and one value: every value
  in the list is replaced by that value.\<close>

definition replace_dict :: "(string \<times> string) list \<Rightarrow> string \<Rightarrow> string" where
  "replace_dict tbl v = (case map_of tbl v of Some w \<Rightarrow> w | None \<Rightarrow> v)"

definition replace_list :: "string list \<Rightarrow> string \<Rightarrow> string \<Rightarrow> string" where
  "replace_list olds new v = (if v \<in> set olds then new else v)"

text \<open>The same with \<open>pd.NA\<close> as the new value: the cell becomes absent (\<open>None\<close>).\<close>

definition replace_na :: "string list \<Rightarrow> string \<Rightarrow> string option" where
  "replace_na olds v = (if v \<in> set olds then None else Some v)"

text \<open>\<open>astype(str)\<close> on a cleaned cell: \<open>pd.NA\<close> prints as \<open><NA>\<close>.\<close>

definition na_str :: "string option \<Rightarrow> string" where
  "na_str v = (case v of None \<Rightarrow> ''<NA>'' | Some s \<Rightarrow> s)"

section \<open>Brand classifier\<close>

definition brand_aliases :: "(string \<times> string) list" where
  "brand_aliases =
     [(''7k'', ''7K''), (''7kbet'', ''7K''), (''7kbetbr'', ''7K''),
      (''cassino'', ''Cassino''), (''cassinobet'', ''Cassino''), (''cassinobetbr'', ''Cassino''),
      (''vera'', ''Vera''), (''verabet'', ''Vera''), (''verabetbr'', ''Vera'')]"

definition normalize_brand :: "cell \<Rightarrow> string" where
  "normalize_brand s =
     (let x = strip (astype_str s);
          x_lower = lower x;
          x = replace_dict brand_aliases x_lower;
          x = replace_list [''nan'', ''none'', ''''] ''Sem Brand'' x
      in x)"


section \<open>Header validation\<close>

datatype error =
    ValueError "string list" "string list"
  | LengthMismatch
  | ReError
  | OverflowError

definition norm_cols :: "string list \<Rightarrow> string list" where
  "norm_cols columns = map strip columns"

text \<open>
  The dict comprehension \<open>{c.lower().strip(): c for c in df.columns}\<close> keeps, for a key
  that several headers give, the last of them; \<open>map_of\<close> returns the first pair of a
  key, so the pairs are listed from the last header to the first. The error carries the
  two lists that the message of the \<open>ValueError\<close> interpolates: the missing names and
  the required names.
\<close>

definition cols_lower :: "string list \<Rightarrow> (string \<times> string) list" where
  "cols_lower columns = rev (map (\<lambda>c. (strip (lower c), c)) columns)"

definition require_cols :: "string list \<Rightarrow> string list \<Rightarrow> error + (string \<times> string) list" where
  "require_cols columns required =
     (let missing = filter (\<lambda>c. map_of (cols_lower columns) c = None) required
      in if missing \<noteq> [] then Inl (ValueError missing required)
         else Inr (map (\<lambda>k. (k, case map_of (cols_lower columns) k of Some c \<Rightarrow> c | None \<Rightarrow> k))
                     required))"

definition required :: "string list" where
  "required = [''user_id'', ''game_name'', ''reference'', ''created_at'', ''brand_name'']"

section \<open>Rows\<close>

record raw_row =
  raw_user_id :: cell
  raw_game_name :: cell
  raw_reference :: cell
  raw_created_at :: cell
  raw_brand_name :: cell

text \<open>A cleaned row. An absent text is \<open>None\<close>; \<open>created_at\<close> is the UTC instant in
  nanoseconds since the epoch, \<open>None\<close> for \<open>NaT\<close>.\<close>

record row =
  user_id :: "string option"
  game_name :: "string option"
  reference :: "string option"
  created_at :: "int option"
  brand_name :: string

record raw_table =
  columns :: "string list"
  cells :: "cell list list"

text \<open>
  \<open>df[[colmap[...], ...]]\<close> selects columns by label. A label that occurs twice among
  the headers selects both columns, and assigning the five names then raises a length
  mismatch. A row shorter than the header has \<open>NaN\<close> in the cells it lacks.
\<close>

definition positions :: "string list \<Rightarrow> string \<Rightarrow> nat list" where
  "positions cols c = filter (\<lambda>i. cols ! i = c) [0..<length cols]"

definition cell_at :: "cell list \<Rightarrow> nat \<Rightarrow> cell" where
  "cell_at cs i = (if i < length cs then cs ! i else NaN)"

definition select_columns :: "string list \<Rightarrow> string list \<Rightarrow> cell list list \<Rightarrow> error + raw_row list" where
  "select_columns cols labels css =
     (case concat (map (positions cols) labels) of
        [a, b, c, d, e] \<Rightarrow>
          Inr (map (\<lambda>cs. \<lparr>raw_user_id = cell_at cs a, raw_game_name = cell_at cs b,
                           raw_reference = cell_at cs c, raw_created_at = cell_at cs d,
                           raw_brand_name = cell_at cs e\<rparr>) css)
      | _ \<Rightarrow> Inl LengthMismatch)"

definition ingest :: "raw_table \<Rightarrow> error + raw_row list" where
  "ingest tbl =
     (let cols = norm_cols (columns tbl)
      in case require_cols cols required of
           Inl e \<Rightarrow> Inl e
         | Inr colmap \<Rightarrow> select_columns cols (map snd colmap) (cells tbl))"

section \<open>Normalizer\<close>

text \<open>
  \<open>re.sub(r"\.0$", "", s)\<close>: the anchor matches at the end of the text, and also before
  a newline that is the last character of the text.
\<close>

definition sub_dot0 :: "string \<Rightarrow> string" where
  "sub_dot0 s =
     (let r = rev s
      in if take 2 r = ''0.'' then rev (drop 2 r)
         else if take 3 r = CHR 0x0A # ''0.'' then rev (drop 3 r) @ [CHR 0x0A]
         else s)"

definition coerce_user_id :: "cell \<Rightarrow> string option" where
  "coerce_user_id c =
     (let s = astype_str c;
          s = sub_dot0 s;
          s = replace_na [''nan'', ''None'', ''NaT''] s
      in map_option strip s)"

text \<open>The cleaning of \<open>game_name\<close> and of \<open>reference\<close> (the same expression twice).\<close>

definition clean_text :: "cell \<Rightarrow> string option" where
  "clean_text c = map_option strip (replace_na [''nan'', ''None''] (astype_str c))"

text \<open>
  \<open>pd.to_datetime(column, errors="coerce", utc=True)\<close> is the library's parser. It reads
  the whole column, and the format it reads a cell with can depend on the other cells, so
  it is a parameter \<open>to_datetime\<close> of the model from the column to the list of its
  instants, \<open>None\<close> where a cell does not parse. The library returns one value per cell;
  a cell beyond the end of the returned list counts as not parsed.
\<close>

definition clean_columns :: "(cell list \<Rightarrow> int option list) \<Rightarrow> raw_row list \<Rightarrow> row list" where
  "clean_columns to_datetime raws =
     (let parsed = to_datetime (map raw_created_at raws)
      in map (\<lambda>(i, r).
                \<lparr>user_id = coerce_user_id (raw_user_id r),
                 game_name = clean_text (raw_game_name r),
                 reference = clean_text (raw_reference r),
                 created_at = (if i < length parsed then parsed ! i else None),
                 brand_name = normalize_brand (raw_brand_name r)\<rparr>)
             (enumerate 0 raws))"

text \<open>The two lines that remove the invalid rows: \<open>dropna\<close> on \<open>reference\<close> and
  \<open>created_at\<close>, then the rows whose reference has some text are kept.\<close>

definition drop_invalid :: "row list \<Rightarrow> row list" where
  "drop_invalid df =
     (let df = filter (\<lambda>r. reference r \<noteq> None \<and> created_at r \<noteq> None) df;
          df = filter (\<lambda>r. length (na_str (reference r)) > 0) df
      in df)"

definition clean :: "(cell list \<Rightarrow> int option list) \<Rightarrow> raw_row list \<Rightarrow> row list" where
  "clean to_datetime raws = drop_invalid (clean_columns to_datetime raws)"

section \<open>Filters\<close>

text \<open>
  \<open>str.contains(pat, case=False, na=False)\<close> compiles the pattern as a regular expression
  with \<open>re.IGNORECASE\<close> and keeps the texts in which it is found. A pattern without a
  metacharacter is found where it occurs in the text, letter case ignored. For every
  other pattern the regular-expression engine is a parameter \<open>re_search\<close> of the model: it
  gives the test on texts that the compiled pattern is, or \<open>None\<close> where the pattern does
  not compile and \<open>re.error\<close> is raised.
\<close>

definition is_meta :: "char \<Rightarrow> bool" where
  "is_meta c \<longleftrightarrow> c \<in> set ''.^$*+?{}[]|()'' \<or> c = CHR 0x5C"

fun occurs_ci :: "string \<Rightarrow> string \<Rightarrow> bool" where
  "occurs_ci pat [] = (pat = [])"
| "occurs_ci pat (c # s) =
     (lower (take (length pat) (c # s)) = lower pat \<or> occurs_ci pat s)"

definition str_contains ::
  "(string \<Rightarrow> (string \<Rightarrow> bool) option) \<Rightarrow> string \<Rightarrow> error + (string \<Rightarrow> bool)" where
  "str_contains re_search pat =
     (if list_ex is_meta pat
      then (case re_search pat of None \<Rightarrow> Inl ReError | Some found \<Rightarrow> Inr found)
      else Inr (occurs_ci pat))"

record config =
  f_brand :: "string list"
  f_user :: string
  f_game :: string

text \<open>The three filters in the order of the script; an invalid pattern raises when its
  filter is reached, whatever the rows are.\<close>

definition apply_filters ::
  "(string \<Rightarrow> (string \<Rightarrow> bool) option) \<Rightarrow> config \<Rightarrow> row list \<Rightarrow> error + row list" where
  "apply_filters re_search cfg df =
     (let dff = df;
          dff = (if f_brand cfg \<noteq> [] then filter (\<lambda>r. brand_name r \<in> set (f_brand cfg)) dff
                 else dff)
      in case (if f_user cfg \<noteq> []
               then (case str_contains re_search (f_user cfg) of
                       Inl e \<Rightarrow> Inl e
                     | Inr found \<Rightarrow> Inr (filter (\<lambda>r. found (na_str (user_id r))) dff))
               else Inr dff) of
           Inl e \<Rightarrow> Inl e
         | Inr dff \<Rightarrow>
             (if f_game cfg \<noteq> []
              then (case str_contains re_search (f_game cfg) of
                      Inl e \<Rightarrow> Inl e
                    | Inr found \<Rightarrow> Inr (filter (\<lambda>r. found (na_str (game_name r))) dff))
              else Inr dff))"

section \<open>Deduplication and grouping\<close>

text \<open>\<open>drop_duplicates(subset=...)\<close> keeps the first row of every key, in input order.\<close>

fun drop_seen :: "('r \<Rightarrow> 'k) \<Rightarrow> 'k list \<Rightarrow> 'r list \<Rightarrow> 'r list" where
  "drop_seen key seen [] = []"
| "drop_seen key seen (x # xs) =
     (if key x \<in> set seen then drop_seen key seen xs
      else x # drop_seen key (key x # seen) xs)"

definition drop_duplicates :: "('r \<Rightarrow> 'k) \<Rightarrow> 'r list \<Rightarrow> 'r list" where
  "drop_duplicates key df = drop_seen key [] df"

text \<open>
  \<open>groupby(keys)\<close> with its defaults: a row with an absent key column is left out, and
  the groups come in ascending key order. The key function gives \<open>None\<close> for a row with
  an absent key column.
\<close>

definition groupby :: "('r \<Rightarrow> ('k::linorder) option) \<Rightarrow> 'r list \<Rightarrow> ('k \<times> 'r list) list" where
  "groupby key df =
     map (\<lambda>k. (k, filter (\<lambda>r. key r = Some k) df)) (sort (remdups (List.map_filter key df)))"

text \<open>\<open>count\<close> counts the present values of a column, \<open>nunique\<close> the distinct present
  values.\<close>

definition count_col :: "('r \<Rightarrow> 'v option) \<Rightarrow> 'r list \<Rightarrow> nat" where
  "count_col col grp = length (filter (\<lambda>r. col r \<noteq> None) grp)"

definition nunique :: "('r \<Rightarrow> 'v option) \<Rightarrow> 'r list \<Rightarrow> nat" where
  "nunique col grp = length (remdups (List.map_filter col grp))"

text \<open>
  \<open>sort_values("qtd_rollbacks", ascending=False)\<close>: the rows in descending order of the
  count. The default sort of pandas is not stable, so the order of rows with equal counts
  is not fixed by the script (up to 16 rows they keep the order they had, in longer tables
  they need not). The model keeps them in the order they had; what is proved of a sorted
  table below is about which rows it has, never about the order of rows with equal counts.
\<close>

definition sort_values_desc :: "('a \<Rightarrow> nat) \<Rightarrow> 'a list \<Rightarrow> 'a list" where
  "sort_values_desc qtd tbl = sort_key (\<lambda>x. - int (qtd x)) tbl"

definition refs_brand :: "row list \<Rightarrow> row list" where
  "refs_brand dff = drop_duplicates (\<lambda>r. (brand_name r, reference r)) dff"

definition cliente_jogo :: "row list \<Rightarrow> ((string \<times> string \<times> string) \<times> nat) list" where
  "cliente_jogo dff =
     (let t = filter (\<lambda>r. user_id r \<noteq> None \<and> game_name r \<noteq> None \<and> reference r \<noteq> None) dff;
          t = drop_duplicates (\<lambda>r. (brand_name r, user_id r, game_name r, reference r)) t;
          g = groupby (\<lambda>r. case (user_id r, game_name r) of
                              (Some u, Some g) \<Rightarrow> Some (brand_name r, u, g)
                            | _ \<Rightarrow> None) t
      in sort_values_desc snd (map (\<lambda>(k, grp). (k, count_col reference grp)) g))"

section \<open>Time buckets\<close>

datatype freq = Freq_H | Freq_T

definition freq_ns :: "freq \<Rightarrow> int" where
  "freq_ns f = (case f of Freq_H \<Rightarrow> 3600 * 1000000000 | Freq_T \<Rightarrow> 60 * 1000000000)"

text \<open>
  \<open>dt.floor(freq)\<close> works on the 64-bit nanosecond value with overflow checked: it raises
  \<open>OverflowError\<close> when the bucket start is not a 64-bit value, which happens below the
  least instant, in 1677. It is applied to the whole column, so one such row makes the
  statement raise; a missing instant stays missing.
\<close>

definition floor_ts :: "freq \<Rightarrow> int \<Rightarrow> error + int" where
  "floor_ts f t =
     (let b = t - t mod freq_ns f
      in if b < - (2 ^ 63) \<or> 2 ^ 63 \<le> b then Inl OverflowError else Inr b)"

fun floor_column :: "freq \<Rightarrow> int option list \<Rightarrow> error + int option list" where
  "floor_column f [] = Inr []"
| "floor_column f (None # ts) =
     (case floor_column f ts of Inl e \<Rightarrow> Inl e | Inr bs \<Rightarrow> Inr (None # bs))"
| "floor_column f (Some t # ts) =
     (case floor_ts f t of
        Inl e \<Rightarrow> Inl e
      | Inr b \<Rightarrow> (case floor_column f ts of Inl e \<Rightarrow> Inl e | Inr bs \<Rightarrow> Inr (Some b # bs)))"

text \<open>The civil date (year, month, day) of a day number counted from 1970-01-01, in the
  proleptic Gregorian calendar.\<close>

definition civil_from_days :: "int \<Rightarrow> int \<times> int \<times> int" where
  "civil_from_days z0 =
     (let z = z0 + 719468;
          era = z div 146097;
          doe = z mod 146097;
          yoe = (doe - doe div 1460 + doe div 36524 - doe div 146096) div 365;
          doy = doe - (365 * yoe + yoe div 4 - yoe div 100);
          mp = (5 * doy + 2) div 153;
          d = doy - (153 * mp + 2) div 5 + 1;
          m = (if mp < 10 then mp + 3 else mp - 9);
          y = yoe + era * 400 + (if m \<le> 2 then 1 else 0)
      in (y, m, d))"

text \<open>
  The day number of a civil date, the reading that \<open>civil_from_days\<close> inverts; with it
  the instant of a date and a time of day can be written down.
\<close>

definition days_from_civil :: "int \<Rightarrow> int \<Rightarrow> int \<Rightarrow> int" where
  "days_from_civil y m d =
     (let y1 = (if m \<le> 2 then y - 1 else y);
          era = y1 div 400;
          yoe = y1 mod 400;
          mp = (if m > 2 then m - 3 else m + 9);
          doy = (153 * mp + 2) div 5 + d - 1;
          doe = yoe * 365 + yoe div 4 - yoe div 100 + doy
      in era * 146097 + doe - 719468)"

definition instant_of :: "int \<Rightarrow> int \<Rightarrow> int \<Rightarrow> int \<Rightarrow> int \<Rightarrow> int \<Rightarrow> int" where
  "instant_of y m d hh mm ss =
     (days_from_civil y m d * 86400 + hh * 3600 + mm * 60 + ss) * 1000000000"

text \<open>Two names for the proofs about the calendar: the first day of a year of the
  400-year era, and the year of the era that \<open>civil_from_days\<close> computes for a day.\<close>

definition year_start :: "int \<Rightarrow> int" where
  "year_start y = 365 * y + y div 4 - y div 100"

definition yoe_of :: "int \<Rightarrow> int" where
  "yoe_of doe = (doe - doe div 1460 + doe div 36524 - doe div 146096) div 365"

definition digit :: "int \<Rightarrow> char" where
  "digit n = char_of (48 + nat (n mod 10))"

definition pad2 :: "int \<Rightarrow> string" where
  "pad2 n = [digit (n div 10), digit n]"

definition pad4 :: "int \<Rightarrow> string" where
  "pad4 n = [digit (n div 1000), digit (n div 100), digit (n div 10), digit n]"

text \<open>\<open>strftime("%d/%m/%Y %H:%M")\<close> of a UTC instant; the instants of pandas lie in
  the years 1677 to 2262, so the year has four digits.\<close>

definition strftime :: "int \<Rightarrow> string" where
  "strftime t =
     (let secs = t div 1000000000;
          days = secs div 86400;
          sod = secs mod 86400;
          (y, m, d) = civil_from_days days
      in pad2 d @ ''/'' @ pad2 m @ ''/'' @ pad4 y @ '' '' @
         pad2 (sod div 3600) @ '':'' @ pad2 (sod mod 3600 div 60))"

record horario =
  h_brand_name :: string
  bucket_time :: int
  h_qtd_rollbacks :: nat
  horario_utc :: string

text \<open>The fact table gets the column \<open>bucket_time\<close>, here the second component of a
  pair, and is grouped on brand and bucket.\<close>

definition horarios :: "freq \<Rightarrow> row list \<Rightarrow> error + horario list" where
  "horarios f facts =
     (case floor_column f (map created_at facts) of
        Inl e \<Rightarrow> Inl e
      | Inr bs \<Rightarrow>
          (let g = groupby (\<lambda>(r, bt). case bt of Some b \<Rightarrow> Some (brand_name r, b)
                                     | None \<Rightarrow> None) (zip facts bs);
               t = sort_values_desc snd
                     (map (\<lambda>(k, grp). (k, count_col (\<lambda>(r, bt). reference r) grp)) g)
           in Inr (map (\<lambda>((b, bt), n). \<lparr>h_brand_name = b, bucket_time = bt,
                                         h_qtd_rollbacks = n, horario_utc = strftime bt\<rparr>) t)))"

section \<open>Games\<close>

definition jogos :: "row list \<Rightarrow> ((string \<times> string) \<times> nat) list" where
  "jogos facts =
     (let t = filter (\<lambda>r. game_name r \<noteq> None) facts;
          g = groupby (\<lambda>r. case game_name r of Some gn \<Rightarrow> Some (brand_name r, gn)
                            | None \<Rightarrow> None) t
      in sort_values_desc snd (map (\<lambda>(k, grp). (k, count_col reference grp)) g))"

definition top_jogos_geral :: "((string \<times> string) \<times> nat) list \<Rightarrow> (string \<times> nat) list" where
  "top_jogos_geral jg =
     (let g = groupby (\<lambda>((b, gn), n). Some gn) jg
      in sort_values_desc snd (map (\<lambda>(k, grp). (k, sum_list (map snd grp))) g))"

section \<open>KPIs and the whole run\<close>

definition total_rollbacks :: "row list \<Rightarrow> nat" where
  "total_rollbacks facts =
     sum_list (map (\<lambda>(b, grp). nunique reference grp) (groupby (\<lambda>r. Some (brand_name r)) facts))"

record outputs =
  out_refs_brand :: "row list"
  out_cliente_jogo :: "((string \<times> string \<times> string) \<times> nat) list"
  out_horarios :: "horario list"
  out_jogos :: "((string \<times> string) \<times> nat) list"
  out_top_jogos_geral :: "(string \<times> nat) list"
  out_total_rollbacks :: nat

text \<open>The tables in the order of the script; an \<open>OverflowError\<close> of the flooring ends
  the run before anything is shown.\<close>

definition compute :: "freq \<Rightarrow> row list \<Rightarrow> error + outputs" where
  "compute f dff =
     (let facts = refs_brand dff;
          cj = cliente_jogo dff
      in case horarios f facts of
           Inl e \<Rightarrow> Inl e
         | Inr hs \<Rightarrow>
             Inr \<lparr>out_refs_brand = facts,
                  out_cliente_jogo = cj,
                  out_horarios = hs,
                  out_jogos = jogos facts,
                  out_top_jogos_geral = top_jogos_geral (jogos facts),
                  out_total_rollbacks = total_rollbacks facts\<rparr>)"

text \<open>The script stops with a warning, and shows nothing, when no row is left after the
  cleaning or after the filters.\<close>

datatype outcome = Stopped | Shown outputs

definition run ::
  "(cell list \<Rightarrow> int option list) \<Rightarrow> (string \<Rightarrow> (string \<Rightarrow> bool) option) \<Rightarrow> config \<Rightarrow> freq \<Rightarrow>
   raw_table \<Rightarrow> error + outcome" where
  "run to_datetime re_search cfg f tbl =
     (case ingest tbl of
        Inl e \<Rightarrow> Inl e
      | Inr raws \<Rightarrow>
          (let df = clean to_datetime raws
           in if df = [] then Inr Stopped
              else (case apply_filters re_search cfg df of
                      Inl e \<Rightarrow> Inl e
                    | Inr dff \<Rightarrow>
                        if dff = [] then Inr Stopped
                        else (case compute f dff of
                                Inl e \<Rightarrow> Inl e
                              | Inr out \<Rightarrow> Inr (Shown out)))))"

section \<open>Facts about text\<close>

lemma lower_char_idem: "lower_char (lower_char c) = lower_char c"
  unfolding lower_char_def Let_def by auto

lemma is_space_lower_char: "is_space (lower_char c) = is_space c"
  unfolding lower_char_def is_space_def Let_def by auto

lemma lower_idem: "lower (lower s) = lower s"
  by (simp add: lower_def lower_char_idem)

lemma dropWhile_space_lower: "dropWhile is_space (lower s) = lower (dropWhile is_space s)"
  by (induction s) (simp_all add: lower_def is_space_lower_char)

lemma strip_lower: "strip (lower s) = lower (strip s)"
proof -
  have "rev (lower t) = lower (rev t)" for t
    by (simp add: lower_def rev_map)
  then show ?thesis
    by (simp add: strip_def rstrip_def lstrip_def dropWhile_space_lower)
qed

lemma strip_Nil_iff: "strip s = [] \<longleftrightarrow> (\<forall>c\<in>set s. is_space c)"
proof -
  let ?t = "dropWhile is_space s"
  have "strip s = [] \<longleftrightarrow> (\<forall>c\<in>set ?t. is_space c)"
    by (simp add: strip_def rstrip_def lstrip_def)
  also have "\<dots> \<longleftrightarrow> ?t = []"
  proof
    assume a: "\<forall>c\<in>set ?t. is_space c"
    show "?t = []"
    proof (rule ccontr)
      assume "?t \<noteq> []"
      then have "\<not> is_space (hd ?t)" "hd ?t \<in> set ?t"
        by (simp_all add: hd_dropWhile)
      with a show False by blast
    qed
  next
    assume "?t = []"
    then show "\<forall>c\<in>set ?t. is_space c" by (simp only: list.set ball_empty)
  qed
  finally show ?thesis by simp
qed

lemma strip_ends:
  assumes "strip s \<noteq> []"
  shows "\<not> is_space (hd (strip s))" and "\<not> is_space (last (strip s))"
proof -
  let ?t = "dropWhile is_space s"
  let ?u = "dropWhile is_space (rev ?t)"
  have u: "?u \<noteq> []" using assms by (simp add: strip_def rstrip_def lstrip_def)
  have "last (strip s) = hd ?u"
    using u by (simp add: strip_def rstrip_def lstrip_def last_rev)
  then show "\<not> is_space (last (strip s))"
    using u by (simp add: hd_dropWhile)
  have t: "?t \<noteq> []"
  proof
    assume "?t = []"
    then have "?u = []" by (simp only: rev.simps dropWhile.simps)
    with u show False by simp
  qed
  have "rev ?t = takeWhile is_space (rev ?t) @ ?u" by simp
  then have "?t = rev ?u @ rev (takeWhile is_space (rev ?t))"
    by (metis rev_append rev_rev_ident)
  then have "hd ?t = hd (rev ?u)" using u by (metis hd_append2 rev_is_Nil_conv)
  moreover have "\<not> is_space (hd ?t)" using t by (simp add: hd_dropWhile)
  ultimately show "\<not> is_space (hd (strip s))"
    by (simp add: strip_def rstrip_def lstrip_def)
qed

lemma dropWhile_hd_id: "xs = [] \<or> \<not> P (hd xs) \<Longrightarrow> dropWhile P xs = xs"
  by (cases xs) auto

lemma strip_idem: "strip (strip s) = strip s"
proof (cases "strip s = []")
  case True
  have "strip [] = []" by (simp add: strip_def rstrip_def lstrip_def)
  with True show ?thesis by simp
next
  case False
  note e = strip_ends[OF False]
  have "lstrip (strip s) = strip s"
    unfolding lstrip_def using e(1) by (intro dropWhile_hd_id) simp
  moreover have "rstrip (strip s) = strip s"
  proof -
    have "dropWhile is_space (rev (strip s)) = rev (strip s)"
      using e(2) False by (intro dropWhile_hd_id) (simp add: hd_rev)
    then show ?thesis by (simp add: rstrip_def)
  qed
  ultimately show ?thesis by (simp add: strip_def[of "strip s"])
qed

lemma strip_not_blank: "strip s \<noteq> [] \<Longrightarrow> \<not> (\<forall>c\<in>set (strip s). is_space c)"
  using strip_Nil_iff[of "strip s"] by (simp add: strip_idem)

lemma lower_Nil_iff: "lower s = [] \<longleftrightarrow> s = []"
  by (simp add: lower_def)

lemma is_space_lower: "(\<forall>c\<in>set (lower s). is_space c) \<longleftrightarrow> (\<forall>c\<in>set s. is_space c)"
  by (simp add: lower_def is_space_lower_char)


section \<open>Brand classifier\<close>

lemma alias_values: "map_of brand_aliases l = Some w \<Longrightarrow> w \<in> {''7K'', ''Cassino'', ''Vera''}"
proof -
  assume "map_of brand_aliases l = Some w"
  then have "(l, w) \<in> set brand_aliases" by (rule map_of_SomeD)
  then have "w \<in> snd ` set brand_aliases" by force
  also have "snd ` set brand_aliases = {''7K'', ''Cassino'', ''Vera''}"
    unfolding brand_aliases_def
    by (simp only: list.set image_insert image_empty snd_conv insert_absorb2 insert_commute)
  finally show ?thesis .
qed

lemma sentinel_no_alias: "l \<in> {''nan'', ''none'', ''''} \<Longrightarrow> map_of brand_aliases l = None"
proof -
  have "map_of brand_aliases ''nan'' = None" by code_simp
  moreover have "map_of brand_aliases ''none'' = None" by code_simp
  moreover have "map_of brand_aliases '''' = None" by code_simp
  moreover assume "l \<in> {''nan'', ''none'', ''''}"
  ultimately show ?thesis by blast
qed

lemma label_not_sentinel: "w \<in> {''7K'', ''Cassino'', ''Vera''} \<Longrightarrow> w \<notin> set [''nan'', ''none'', '''']"
  by auto

lemma normalize_brand_cases:
  "normalize_brand c =
     (case map_of brand_aliases (lower (strip (astype_str c))) of Some w \<Rightarrow> w
         | None \<Rightarrow> if lower (strip (astype_str c)) \<in> {''nan'', ''none'', ''''} then ''Sem Brand''
                   else lower (strip (astype_str c)))"
proof (cases "map_of brand_aliases (lower (strip (astype_str c)))")
  case None
  then show ?thesis
    by (simp add: normalize_brand_def replace_dict_def replace_list_def Let_def)
next
  case (Some w)
  from label_not_sentinel[OF alias_values[OF Some]] Some show ?thesis
    by (simp only: normalize_brand_def replace_dict_def replace_list_def Let_def option.case if_False)
qed

lemma label_not_blank:
  "w \<in> {''7K'', ''Cassino'', ''Vera'', ''Sem Brand''} \<Longrightarrow> \<not> (\<forall>c\<in>set w. is_space c)"
proof -
  have "\<not> is_space CHR ''a''" by (simp add: is_space_def)
  moreover assume "w \<in> {''7K'', ''Cassino'', ''Vera'', ''Sem Brand''}"
  then have "CHR ''a'' \<in> set w \<or> w = ''7K''" by auto
  moreover have "\<not> is_space CHR ''K''" by (simp add: is_space_def)
  ultimately show ?thesis by auto
qed

lemma normalize_brand_not_blank: "\<not> (\<forall>c\<in>set (normalize_brand s). is_space c)"
proof (cases "map_of brand_aliases (lower (strip (astype_str s)))")
  case None
  show ?thesis
  proof (cases "lower (strip (astype_str s)) \<in> {''nan'', ''none'', ''''}")
    case True
    with None have "normalize_brand s = ''Sem Brand''"
      by (simp only: normalize_brand_cases option.case if_True)
    then show ?thesis using label_not_blank[of "''Sem Brand''"] by simp
  next
    case False
    then have "strip (astype_str s) \<noteq> []" by (auto simp: lower_def)
    from strip_not_blank[OF this] have "\<not> (\<forall>c\<in>set (lower (strip (astype_str s))). is_space c)"
      by (simp add: is_space_lower)
    moreover from None False have "normalize_brand s = lower (strip (astype_str s))"
      by (simp only: normalize_brand_cases option.case if_False)
    ultimately show ?thesis by simp
  qed
next
  case (Some w)
  then have "normalize_brand s = w" by (simp only: normalize_brand_cases option.case)
  moreover from alias_values[OF Some] have "\<not> (\<forall>c\<in>set w. is_space c)"
    by (intro label_not_blank) blast
  ultimately show ?thesis by simp
qed

text \<open>
  C7. A brand text whose trimmed, lowercased form is no alias and is neither empty nor
  \<open>nan\<close> nor \<open>none\<close> is classified as that lowercased form; an empty or whitespace-only
  text, and a text whose trimmed lowercased form is \<open>nan\<close> or \<open>none\<close>, is classified as
  \<open>Sem Brand\<close>; the label is never empty and never blank.
\<close>

theorem normalize_brand_passthrough_and_fallback:
  "(map_of brand_aliases (lower (strip (astype_str s))) = None \<and>
    lower (strip (astype_str s)) \<notin> {'''', ''nan'', ''none''}
      \<longrightarrow> normalize_brand s = lower (strip (astype_str s))) \<and>
   ((\<forall>c\<in>set (astype_str s). is_space c) \<or> lower (strip (astype_str s)) \<in> {''nan'', ''none''}
      \<longrightarrow> normalize_brand s = ''Sem Brand'') \<and>
   normalize_brand s \<noteq> '''' \<and> \<not> (\<forall>c\<in>set (normalize_brand s). is_space c)"
proof -
  have a: "map_of brand_aliases (lower (strip (astype_str s))) = None \<and>
      lower (strip (astype_str s)) \<notin> {'''', ''nan'', ''none''}
      \<longrightarrow> normalize_brand s = lower (strip (astype_str s))"
  proof
    assume h: "map_of brand_aliases (lower (strip (astype_str s))) = None \<and>
      lower (strip (astype_str s)) \<notin> {'''', ''nan'', ''none''}"
    then have "lower (strip (astype_str s)) \<notin> {''nan'', ''none'', ''''}" by blast
    with h show "normalize_brand s = lower (strip (astype_str s))"
      by (simp only: normalize_brand_cases option.case if_False)
  qed
  have b: "(\<forall>c\<in>set (astype_str s). is_space c) \<or> lower (strip (astype_str s)) \<in> {''nan'', ''none''}
      \<longrightarrow> normalize_brand s = ''Sem Brand''"
  proof
    assume "(\<forall>c\<in>set (astype_str s). is_space c) \<or> lower (strip (astype_str s)) \<in> {''nan'', ''none''}"
    then have m: "lower (strip (astype_str s)) \<in> {''nan'', ''none'', ''''}"
      using strip_Nil_iff[of "astype_str s"] lower_Nil_iff[of "strip (astype_str s)"] by blast
    from sentinel_no_alias[OF m] m show "normalize_brand s = ''Sem Brand''"
      by (simp only: normalize_brand_cases option.case if_True)
  qed
  have c: "\<not> (\<forall>c\<in>set (normalize_brand s). is_space c)"
    by (rule normalize_brand_not_blank)
  then have d: "normalize_brand s \<noteq> ''''" by auto
  from a b c d show ?thesis by blast
qed

theorem normalize_brand_passthrough_and_fallback_witness:
  "map_of brand_aliases (lower (strip (astype_str (Text ''FooBar'')))) = None \<and>
   lower (strip (astype_str (Text ''FooBar''))) \<notin> {'''', ''nan'', ''none''} \<and>
   normalize_brand (Text ''FooBar'') = ''foobar'' \<and>
   list_all is_space (astype_str (Text ''  '')) \<and>
   normalize_brand (Text ''  '') = ''Sem Brand'' \<and>
   lower (strip (astype_str (Text '' NaN ''))) \<in> {''nan'', ''none''} \<and>
   normalize_brand (Text '' NaN '') = ''Sem Brand''"
proof -
  have l1: "lower (strip (astype_str (Text ''FooBar''))) = ''foobar''" by code_simp
  have h1: "map_of brand_aliases ''foobar'' = None" by code_simp
  have h1': "''foobar'' \<notin> {'''', ''nan'', ''none''}" by simp
  have h2: "\<forall>c\<in>set (astype_str (Text ''  '')). is_space c" by (simp add: is_space_def)
  have l3: "lower (strip (astype_str (Text '' NaN ''))) = ''nan''" by code_simp
  show ?thesis
    using normalize_brand_passthrough_and_fallback[of "Text ''FooBar''"]
      normalize_brand_passthrough_and_fallback[of "Text ''  ''"]
      normalize_brand_passthrough_and_fallback[of "Text '' NaN ''"]
      h1 h1' h2
    unfolding l1 l3 by (simp add: list_all_iff)
qed



lemma normalize_brand_labels:
  "normalize_brand (Text ''7K'') = ''7K''"
  "normalize_brand (Text ''Cassino'') = ''Cassino''"
  "normalize_brand (Text ''Vera'') = ''Vera''"
  by code_simp+

lemma distinct_alias_keys: "distinct (map fst brand_aliases)"
  by code_simp

lemma normalize_brand_alias:
  assumes "(k, w) \<in> set brand_aliases" and "lower (strip (astype_str a)) = k"
  shows "normalize_brand a = w"
proof -
  from assms(1) have "map_of brand_aliases k = Some w"
    using distinct_alias_keys by (rule_tac map_of_is_SomeI)
  with assms(2) show ?thesis
    by (simp only: normalize_brand_cases option.case)
qed

lemma normalize_brand_idem:
  assumes "normalize_brand s \<noteq> ''Sem Brand''"
  shows "normalize_brand (Text (normalize_brand s)) = normalize_brand s"
proof (cases "map_of brand_aliases (lower (strip (astype_str s)))")
  case (Some w)
  then have "normalize_brand s = w" by (simp only: normalize_brand_cases option.case)
  with alias_values[OF Some] show ?thesis
    using normalize_brand_labels by auto
next
  case None
  let ?l = "lower (strip (astype_str s))"
  have ns: "?l \<notin> {''nan'', ''none'', ''''}"
  proof
    assume "?l \<in> {''nan'', ''none'', ''''}"
    with None have "normalize_brand s = ''Sem Brand''"
      by (simp only: normalize_brand_cases option.case if_True)
    with assms show False by simp
  qed
  with None have r: "normalize_brand s = ?l"
    by (simp only: normalize_brand_cases option.case if_False)
  have "lower (strip (astype_str (Text ?l))) = ?l"
    by (simp add: strip_lower strip_idem lower_idem)
  with None ns have "normalize_brand (Text ?l) = ?l"
    by (simp only: normalize_brand_cases[of "Text ?l"] option.case if_False)
  with r show ?thesis by simp
qed

text \<open>
  C4, as the code has it. Classifying a label that the classifier emitted returns the
  label unchanged for every label other than the fallback \<open>Sem Brand\<close>, so for \<open>7K\<close>,
  \<open>Cassino\<close>, \<open>Vera\<close> and every passed-through lowercased label; and two texts whose
  trimmed lowercased forms are aliases of the same brand are both classified as that
  brand's label.
\<close>

theorem normalize_brand_idempotent_apart_from_fallback:
  "(normalize_brand s \<noteq> ''Sem Brand'' \<longrightarrow>
      normalize_brand (Text (normalize_brand s)) = normalize_brand s) \<and>
   normalize_brand (Text ''7K'') = ''7K'' \<and>
   normalize_brand (Text ''Cassino'') = ''Cassino'' \<and>
   normalize_brand (Text ''Vera'') = ''Vera'' \<and>
   ((k, w) \<in> set brand_aliases \<and> (k', w) \<in> set brand_aliases \<and>
    lower (strip (astype_str a)) = k \<and> lower (strip (astype_str b)) = k' \<longrightarrow>
      normalize_brand a = w \<and> normalize_brand b = w)"
  using normalize_brand_idem[of s] normalize_brand_labels
    normalize_brand_alias[of k w a] normalize_brand_alias[of k' w b]
  by blast

theorem normalize_brand_idempotent_apart_from_fallback_witness:
  "normalize_brand (Text '' VeraBet '') = ''Vera'' \<and>
   normalize_brand (Text (normalize_brand (Text '' VeraBet ''))) = ''Vera'' \<and>
   normalize_brand (Text ''FooBar'') = ''foobar'' \<and>
   normalize_brand (Text (normalize_brand (Text ''FooBar''))) = ''foobar'' \<and>
   (''7kbet'', ''7K'') \<in> set brand_aliases \<and> (''7kbetbr'', ''7K'') \<in> set brand_aliases \<and>
   lower (strip (astype_str (Text '' 7KBet ''))) = ''7kbet'' \<and>
   lower (strip (astype_str (Text ''7kBETbr''))) = ''7kbetbr'' \<and>
   normalize_brand (Text '' 7KBet '') = ''7K'' \<and> normalize_brand (Text ''7kBETbr'') = ''7K''"
proof -
  have v: "normalize_brand (Text '' VeraBet '') = ''Vera''" by code_simp
  have f: "normalize_brand (Text ''FooBar'') = ''foobar''" by code_simp
  have n: "''Vera'' \<noteq> ''Sem Brand''" "''foobar'' \<noteq> ''Sem Brand''" by simp_all
  have m: "(''7kbet'', ''7K'') \<in> set brand_aliases" "(''7kbetbr'', ''7K'') \<in> set brand_aliases"
    by (simp_all add: brand_aliases_def)
  have l: "lower (strip (astype_str (Text '' 7KBet ''))) = ''7kbet''"
    "lower (strip (astype_str (Text ''7kBETbr''))) = ''7kbetbr''"
    by code_simp+
  show ?thesis
    using normalize_brand_idempotent_apart_from_fallback[of "Text '' VeraBet ''" "''7kbet''" "''7K''" "''7kbetbr''"
        "Text '' 7KBet ''" "Text ''7kBETbr''"]
      normalize_brand_idempotent_apart_from_fallback[of "Text ''FooBar''" "''7kbet''" "''7K''" "''7kbetbr''"
        "Text '' 7KBet ''" "Text ''7kBETbr''"]
      m l n
    unfolding v f by blast
qed

theorem normalize_brand_fallback_not_idempotent:
  "normalize_brand NaN = ''Sem Brand'' \<and>
   normalize_brand (Text (normalize_brand NaN)) = ''sem brand'' \<and>
   normalize_brand (Text (normalize_brand NaN)) \<noteq> normalize_brand NaN"
  by code_simp



section \<open>Normalizer\<close>


lemma replace_na_None_iff: "replace_na olds v = None \<longleftrightarrow> v \<in> set olds"
  by (simp add: replace_na_def)

lemma replace_na_Some: "replace_na olds v = Some w \<Longrightarrow> w = v"
  by (simp add: replace_na_def split: if_splits)












section \<open>Header validation\<close>

lemma header_key: "strip (lower (strip h)) = lower (strip h)"
  by (simp add: strip_lower strip_idem)

lemma cols_lower_None_iff:
  "map_of (cols_lower cs) k = None \<longleftrightarrow> k \<notin> (\<lambda>c. strip (lower c)) ` set cs"
  by (simp add: cols_lower_def map_of_eq_None_iff image_image)

lemma cols_lower_norm_None_iff:
  "map_of (cols_lower (norm_cols hs)) k = None \<longleftrightarrow> \<not> (\<exists>h\<in>set hs. lower (strip h) = k)"
  by (auto simp: cols_lower_None_iff norm_cols_def header_key image_image)

lemma cols_lower_Some:
  "map_of (cols_lower cs) k = Some c \<Longrightarrow> c \<in> set cs \<and> strip (lower c) = k"
  by (auto simp: cols_lower_def dest!: map_of_SomeD)

lemma cols_lower_skip:
  "strip (lower x) \<noteq> k \<Longrightarrow> map_of (cols_lower (a @ x # b)) k = map_of (cols_lower (a @ b)) k"
  by (auto simp: cols_lower_def map_add_def split: option.splits)

lemma missing_norm:
  "filter (\<lambda>c. map_of (cols_lower (norm_cols hs)) c = None) req =
   filter (\<lambda>r. \<not> (\<exists>h\<in>set hs. lower (strip h) = r)) req"
  by (simp only: cols_lower_norm_None_iff)

lemma require_cols_missing:
  assumes "filter (\<lambda>r. \<not> (\<exists>h\<in>set hs. lower (strip h) = r)) req \<noteq> []"
  shows "require_cols (norm_cols hs) req =
         Inl (ValueError (filter (\<lambda>r. \<not> (\<exists>h\<in>set hs. lower (strip h) = r)) req) req)"
  using assms unfolding require_cols_def Let_def missing_norm by simp

lemma require_cols_found:
  assumes "filter (\<lambda>r. \<not> (\<exists>h\<in>set hs. lower (strip h) = r)) req = []"
  shows "\<exists>colmap. require_cols (norm_cols hs) req = Inr colmap \<and> map fst colmap = req \<and>
           (\<forall>(k, c)\<in>set colmap. c \<in> set (norm_cols hs) \<and> lower (strip c) = k)"
proof -
  let ?colmap = "map (\<lambda>k. (k, case map_of (cols_lower (norm_cols hs)) k of Some c \<Rightarrow> c | None \<Rightarrow> k)) req"
  have r: "require_cols (norm_cols hs) req = Inr ?colmap"
    using assms unfolding require_cols_def Let_def missing_norm by simp
  have f: "map fst ?colmap = req" by (simp add: comp_def)
  have "c \<in> set (norm_cols hs) \<and> lower (strip c) = k" if "(k, c) \<in> set ?colmap" for k c
  proof -
    from that have k: "k \<in> set req"
      and c: "c = (case map_of (cols_lower (norm_cols hs)) k of Some c \<Rightarrow> c | None \<Rightarrow> k)"
      by auto
    from k assms have "\<exists>h\<in>set hs. lower (strip h) = k"
      by (auto simp: filter_empty_conv)
    then have "map_of (cols_lower (norm_cols hs)) k \<noteq> None"
      by (simp only: cols_lower_norm_None_iff not_not)
    then obtain c' where s: "map_of (cols_lower (norm_cols hs)) k = Some c'" by blast
    with c have "c = c'" by simp
    with cols_lower_Some[OF s] have m: "c \<in> set (norm_cols hs)" and e: "strip (lower c) = k"
      by simp_all
    from m obtain h where "c = strip h" by (auto simp: norm_cols_def)
    with e have "lower (strip c) = k" by (simp add: strip_idem strip_lower)
    with m show ?thesis by simp
  qed
  then have "\<forall>(k, c)\<in>set ?colmap. c \<in> set (norm_cols hs) \<and> lower (strip c) = k" by blast
  with r f show ?thesis by blast
qed

lemma require_cols_extra:
  assumes "lower (strip x) \<notin> set req"
  shows "require_cols (norm_cols (a @ x # b)) req = require_cols (norm_cols (a @ b)) req"
proof -
  have "map_of (cols_lower (norm_cols (a @ x # b))) k = map_of (cols_lower (norm_cols (a @ b))) k"
    if "k \<in> set req" for k
  proof -
    from that assms have "strip (lower (strip x)) \<noteq> k" by (auto simp: header_key)
    then show ?thesis
      using cols_lower_skip[of "strip x" k "norm_cols a" "norm_cols b"]
      by (simp add: norm_cols_def)
  qed
  then show ?thesis
    unfolding require_cols_def Let_def
    by (simp cong: filter_cong map_cong)
qed

lemma ingest_missing:
  assumes "filter (\<lambda>r. \<not> (\<exists>h\<in>set hs. lower (strip h) = r)) required \<noteq> []"
  shows "ingest \<lparr>columns = hs, cells = css\<rparr> =
         Inl (ValueError (filter (\<lambda>r. \<not> (\<exists>h\<in>set hs. lower (strip h) = r)) required) required)"
  by (simp add: ingest_def Let_def require_cols_missing[OF assms])

lemma run_missing:
  assumes "filter (\<lambda>r. \<not> (\<exists>h\<in>set hs. lower (strip h) = r)) required \<noteq> []"
  shows "run to_datetime re_search cfg f \<lparr>columns = hs, cells = css\<rparr> =
         Inl (ValueError (filter (\<lambda>r. \<not> (\<exists>h\<in>set hs. lower (strip h) = r)) required) required)"
  by (simp add: run_def ingest_missing[OF assms])


text \<open>
  C8. A required name is found when some header equals it after trimming and
  lowercasing. If some required name is not found, the validation fails with an error that
  carries every required name not found, in the order of the required list, and so do the
  ingestion and the whole run, whatever the rows are. If all are found, the validation
  returns a map from each required name to a header that matches it. A header that
  matches no required name does not change the result.
\<close>

theorem header_validation:
  "(filter (\<lambda>r. \<not> (\<exists>h\<in>set hs. lower (strip h) = r)) required \<noteq> [] \<longrightarrow>
      require_cols (norm_cols hs) required =
        Inl (ValueError (filter (\<lambda>r. \<not> (\<exists>h\<in>set hs. lower (strip h) = r)) required) required) \<and>
      ingest \<lparr>columns = hs, cells = css\<rparr> =
        Inl (ValueError (filter (\<lambda>r. \<not> (\<exists>h\<in>set hs. lower (strip h) = r)) required) required) \<and>
      run to_datetime re_search cfg f \<lparr>columns = hs, cells = css\<rparr> =
        Inl (ValueError (filter (\<lambda>r. \<not> (\<exists>h\<in>set hs. lower (strip h) = r)) required) required)) \<and>
   (filter (\<lambda>r. \<not> (\<exists>h\<in>set hs. lower (strip h) = r)) required = [] \<longrightarrow>
      (\<exists>colmap. require_cols (norm_cols hs) required = Inr colmap \<and> map fst colmap = required \<and>
         (\<forall>(k, c)\<in>set colmap. c \<in> set (norm_cols hs) \<and> lower (strip c) = k))) \<and>
   (lower (strip x) \<notin> set required \<longrightarrow>
      require_cols (norm_cols (a @ x # b)) required = require_cols (norm_cols (a @ b)) required)"
  using require_cols_missing[of hs required] ingest_missing[of hs css]
    run_missing[of hs to_datetime re_search cfg f css] require_cols_found[of hs required]
    require_cols_extra[of x required a b]
  by blast

theorem header_validation_witness:
  "require_cols (norm_cols [''user_id'', '' Reference '', ''notes'']) required =
     Inl (ValueError [''game_name'', ''created_at'', ''brand_name''] required) \<and>
   run (\<lambda>cs. []) (\<lambda>p. None) \<lparr>f_brand = [], f_user = [], f_game = []\<rparr> Freq_H
       \<lparr>columns = [''user_id'', '' Reference '', ''notes''], cells = [[Text ''u1'', Text ''r1'', NaN]]\<rparr> =
     Inl (ValueError [''game_name'', ''created_at'', ''brand_name''] required) \<and>
   (\<exists>colmap. require_cols (norm_cols ['' User_ID'', ''GAME_name'', ''reference '', ''Created_At'',
        ''brand_name'']) required = Inr colmap \<and> map fst colmap = required) \<and>
   lower (strip ''notes'') \<notin> set required \<and>
   require_cols (norm_cols ([''user_id'', '' Reference ''] @ ''notes'' # [])) required =
     require_cols (norm_cols ([''user_id'', '' Reference ''] @ [])) required"
proof -
  have m: "filter (\<lambda>r. \<not> (\<exists>h\<in>set [''user_id'', '' Reference '', ''notes'']. lower (strip h) = r)) required =
      [''game_name'', ''created_at'', ''brand_name'']"
    by code_simp
  have n: "filter (\<lambda>r. \<not> (\<exists>h\<in>set ['' User_ID'', ''GAME_name'', ''reference '', ''Created_At'',
        ''brand_name'']. lower (strip h) = r)) required = []"
    by code_simp
  have x: "lower (strip ''notes'') \<notin> set required" by code_simp
  from header_validation[of "[''user_id'', '' Reference '', ''notes'']"
      "[[Text ''u1'', Text ''r1'', NaN]]" "\<lambda>cs. []" "\<lambda>p. None" "\<lparr>f_brand = [], f_user = [], f_game = []\<rparr>" Freq_H
      "''notes''" "[''user_id'', '' Reference '']" "[]"] x
  have a: "require_cols (norm_cols [''user_id'', '' Reference '', ''notes'']) required =
     Inl (ValueError [''game_name'', ''created_at'', ''brand_name''] required)"
    "run (\<lambda>cs. []) (\<lambda>p. None) \<lparr>f_brand = [], f_user = [], f_game = []\<rparr> Freq_H
       \<lparr>columns = [''user_id'', '' Reference '', ''notes''], cells = [[Text ''u1'', Text ''r1'', NaN]]\<rparr> =
     Inl (ValueError [''game_name'', ''created_at'', ''brand_name''] required)"
    "require_cols (norm_cols ([''user_id'', '' Reference ''] @ ''notes'' # [])) required =
     require_cols (norm_cols ([''user_id'', '' Reference ''] @ [])) required"
    unfolding m by blast+
  from header_validation[of "['' User_ID'', ''GAME_name'', ''reference '', ''Created_At'', ''brand_name'']"
      "[]" "\<lambda>cs. []" "\<lambda>p. None" "\<lparr>f_brand = [], f_user = [], f_game = []\<rparr>" Freq_H
      "''notes''" "[]" "[]"]
  have b: "\<exists>colmap. require_cols (norm_cols ['' User_ID'', ''GAME_name'', ''reference '', ''Created_At'',
        ''brand_name'']) required = Inr colmap \<and> map fst colmap = required"
    unfolding n by blast
  from a b x show ?thesis by blast
qed






section \<open>Deduplication\<close>

lemma set_drop_seen: "set (drop_seen key seen xs) \<subseteq> set xs"
  by (induction xs arbitrary: seen) auto

lemma keys_drop_seen:
  "key ` set (drop_seen key seen xs) = key ` set xs - set seen"
  by (induction xs arbitrary: seen) auto

lemma distinct_drop_seen: "distinct (map key (drop_seen key seen xs))"
proof (induction xs arbitrary: seen)
  case Nil
  show ?case by simp
next
  case (Cons x xs)
  have "key x \<notin> key ` set (drop_seen key (key x # seen) xs)"
    by (simp add: keys_drop_seen)
  with Cons show ?case by simp
qed

lemma find_drop_seen:
  "find (\<lambda>x. key x = k) (drop_seen key seen xs) =
   (if k \<in> set seen then None else find (\<lambda>x. key x = k) xs)"
  by (induction xs arbitrary: seen) auto

lemma count_drop_seen:
  "length (filter (\<lambda>x. key x = k) (drop_seen key seen xs)) =
   (if k \<in> key ` set xs - set seen then 1 else 0)"
proof -
  have d: "distinct (map key (drop_seen key seen xs))" by (rule distinct_drop_seen)
  have "length (filter (\<lambda>x. key x = k) ys) = (if k \<in> key ` set ys then 1 else 0)"
    if "distinct (map key ys)" for ys
    using that by (induction ys) (auto simp: image_iff)
  from this[OF d] show ?thesis by (simp only: keys_drop_seen)
qed

lemma drop_seen_filter:
  assumes "\<forall>x\<in>set xs. \<forall>y\<in>set xs. key x = key y \<longrightarrow> P x = P y"
    and "\<forall>x\<in>set xs. P x \<longrightarrow> (key x \<in> set seen1 \<longleftrightarrow> key x \<in> set seen2)"
  shows "drop_seen key seen1 (filter P xs) = filter P (drop_seen key seen2 xs)"
  using assms
proof (induction xs arbitrary: seen1 seen2)
  case Nil
  show ?case by simp
next
  case (Cons x xs)
  have det: "\<forall>a\<in>set xs. \<forall>b\<in>set xs. key a = key b \<longrightarrow> P a = P b"
    using Cons.prems(1) by (meson list.set_intros(2))
  have same: "\<forall>y\<in>set xs. P y \<longrightarrow> (key y \<in> set seen1 \<longleftrightarrow> key y \<in> set seen2)"
    using Cons.prems(2) by (meson list.set_intros(2))
  have hd: "P x \<Longrightarrow> (key x \<in> set seen1 \<longleftrightarrow> key x \<in> set seen2)"
    using Cons.prems(2) by (meson list.set_intros(1))
  have same': "\<forall>y\<in>set xs. P y \<longrightarrow> (key y \<in> set (key x # seen1) \<longleftrightarrow> key y \<in> set (key x # seen2))"
    using same by (metis list.set_intros(1,2) set_ConsD)
  show ?case
  proof (cases "P x")
    case True
    show ?thesis
    proof (cases "key x \<in> set seen2")
      case True
      with \<open>P x\<close> hd have "key x \<in> set seen1" by blast
      with True \<open>P x\<close> Cons.IH[OF det same] show ?thesis by simp
    next
      case False
      with \<open>P x\<close> hd have "key x \<notin> set seen1" by blast
      with False \<open>P x\<close> Cons.IH[OF det same'] show ?thesis by simp
    qed
  next
    case nP: False
    show ?thesis
    proof (cases "key x \<in> set seen2")
      case True
      with nP Cons.IH[OF det same] show ?thesis by simp
    next
      case False
      have ne: "\<forall>y\<in>set xs. P y \<longrightarrow> key y \<noteq> key x"
        using Cons.prems(1) nP by (metis list.set_intros(1,2))
      have "\<forall>y\<in>set xs. P y \<longrightarrow> (key y \<in> set seen1 \<longleftrightarrow> key y \<in> set (key x # seen2))"
        using same ne by (metis list.set_intros(2) set_ConsD)
      from Cons.IH[OF det this] False nP show ?thesis by simp
    qed
  qed
qed

lemma drop_duplicates_filter:
  assumes "\<forall>x\<in>set xs. \<forall>y\<in>set xs. key x = key y \<longrightarrow> P x = P y"
  shows "drop_duplicates key (filter P xs) = filter P (drop_duplicates key xs)"
  unfolding drop_duplicates_def by (rule drop_seen_filter[OF assms]) blast

lemma set_drop_duplicates: "set (drop_duplicates key xs) \<subseteq> set xs"
  by (simp add: drop_duplicates_def set_drop_seen)

lemma keys_drop_duplicates: "key ` set (drop_duplicates key xs) = key ` set xs"
  by (simp add: drop_duplicates_def keys_drop_seen)

lemma distinct_drop_duplicates: "distinct (map key (drop_duplicates key xs))"
  by (simp add: drop_duplicates_def distinct_drop_seen)

lemma find_drop_duplicates:
  "find (\<lambda>x. key x = k) (drop_duplicates key xs) = find (\<lambda>x. key x = k) xs"
  by (simp add: drop_duplicates_def find_drop_seen)

lemma count_drop_duplicates:
  "length (filter (\<lambda>x. key x = k) (drop_duplicates key xs)) = (if k \<in> key ` set xs then 1 else 0)"
  by (simp add: drop_duplicates_def count_drop_seen)




section \<open>Grouping\<close>

lemma set_map_filter_key: "set (List.map_filter key df) = {k. \<exists>r\<in>set df. key r = Some k}"
  by (auto simp: List.map_filter_def image_iff) (metis option.sel)

lemma groupby_keys: "map fst (groupby key df) = sort (remdups (List.map_filter key df))"
  by (simp add: groupby_def comp_def)

lemma distinct_groupby: "distinct (map fst (groupby key df))"
  by (simp add: groupby_keys)

lemma set_groupby:
  "(k, grp) \<in> set (groupby key df) \<longleftrightarrow>
   (\<exists>r\<in>set df. key r = Some k) \<and> grp = filter (\<lambda>r. key r = Some k) df"
  by (auto simp: groupby_def set_map_filter_key)

lemma distinct_map_insort_key:
  "distinct (map g (insort_key f x xs)) \<longleftrightarrow> g x \<notin> g ` set xs \<and> distinct (map g xs)"
  by (induction xs) (auto simp: set_insort_key)

lemma distinct_map_sort_key: "distinct (map g (sort_key f xs)) \<longleftrightarrow> distinct (map g xs)"
  by (induction xs) (simp_all add: distinct_map_insort_key)

lemma set_sort_values_desc: "set (sort_values_desc qtd tbl) = set tbl"
  by (simp add: sort_values_desc_def)

lemma distinct_sort_values_desc:
  "distinct (map g (sort_values_desc qtd tbl)) \<longleftrightarrow> distinct (map g tbl)"
  by (simp add: sort_values_desc_def distinct_map_sort_key)

lemma agg_table_distinct:
  "distinct (map fst (sort_values_desc qtd (map (\<lambda>(k, grp). (k, agg grp)) (groupby key df))))"
proof -
  have "map fst (map (\<lambda>(k, grp). (k, agg grp)) (groupby key df)) = map fst (groupby key df)"
    by (simp add: comp_def case_prod_beta)
  then show ?thesis
    by (simp only: distinct_sort_values_desc distinct_groupby)
qed

lemma agg_table_set:
  "(k, v) \<in> set (sort_values_desc qtd (map (\<lambda>(k, grp). (k, agg grp)) (groupby key df))) \<longleftrightarrow>
   (\<exists>r\<in>set df. key r = Some k) \<and> v = agg (filter (\<lambda>r. key r = Some k) df)"
proof -
  have "(k, v) \<in> set (map (\<lambda>(k, grp). (k, agg grp)) (groupby key df)) \<longleftrightarrow>
        (\<exists>grp. (k, grp) \<in> set (groupby key df) \<and> v = agg grp)"
    by force
  then show ?thesis
    by (simp only: set_sort_values_desc set_groupby) blast
qed







section \<open>Flooring\<close>

lemma freq_ns_pos: "0 < freq_ns f"
  by (cases f) (simp_all add: freq_ns_def)

lemma minute_dvd_freq_ns: "60000000000 dvd freq_ns f"
  by (cases f) (simp_all add: freq_ns_def)

lemma floor_ts_Inr_iff:
  "floor_ts f t = Inr b \<longleftrightarrow>
   b = t - t mod freq_ns f \<and> - (2 ^ 63) \<le> t - t mod freq_ns f \<and> t - t mod freq_ns f < 2 ^ 63"
  by (auto simp: floor_ts_def Let_def)

lemma floor_ts_Inl_iff:
  "floor_ts f t = Inl e \<longleftrightarrow>
   e = OverflowError \<and> (t - t mod freq_ns f < - (2 ^ 63) \<or> 2 ^ 63 \<le> t - t mod freq_ns f)"
  by (auto simp: floor_ts_def Let_def)

lemma floor_ts_in_range:
  assumes "- (2 ^ 63) + freq_ns f \<le> t" and "t < 2 ^ 63"
  shows "floor_ts f t = Inr (t - t mod freq_ns f)"
proof -
  have "0 \<le> t mod freq_ns f" "t mod freq_ns f < freq_ns f"
    using freq_ns_pos[of f] by simp_all
  with assms show ?thesis by (simp add: floor_ts_Inr_iff)
qed

lemma floor_column_Inr_iff:
  "floor_column f ts = Inr bs \<longleftrightarrow>
   (\<forall>t. Some t \<in> set ts \<longrightarrow> (\<exists>b. floor_ts f t = Inr b)) \<and>
   bs = map (map_option (\<lambda>t. t - t mod freq_ns f)) ts"
proof (induction f ts arbitrary: bs rule: floor_column.induct)
  case (1 f)
  show ?case by auto
next
  case (2 f ts)
  show ?case
  proof (cases "floor_column f ts")
    case (Inl e)
    with 2[of "[]"] 2 show ?thesis by auto
  next
    case (Inr cs)
    with 2[of cs] show ?thesis by auto
  qed
next
  case (3 f t ts)
  show ?case
  proof (cases "floor_ts f t")
    case (Inl e)
    then show ?thesis by auto
  next
    case b: (Inr b)
    then have bv: "b = t - t mod freq_ns f" by (simp add: floor_ts_Inr_iff)
    show ?thesis
    proof (cases "floor_column f ts")
      case (Inl e)
      with b "3"[OF b, of "[]"] "3"[OF b] show ?thesis by auto
    next
      case (Inr cs)
      with b bv "3"[OF b, of cs] show ?thesis by auto
    qed
  qed
qed

lemma floor_column_Inl: "floor_column f ts = Inl e \<Longrightarrow> e = OverflowError"
  by (induction f ts rule: floor_column.induct)
     (auto simp: floor_ts_Inl_iff split: sum.splits)

lemma horarios_Inl: "horarios f facts = Inl e \<Longrightarrow> e = OverflowError"
  by (auto simp: horarios_def dest: floor_column_Inl split: sum.splits)

lemma horarios_total:
  assumes "\<forall>r\<in>set facts. \<forall>t. created_at r = Some t \<longrightarrow> (\<exists>b. floor_ts f t = Inr b)"
  shows "\<exists>hs. horarios f facts = Inr hs"
proof -
  have "\<forall>t. Some t \<in> set (map created_at facts) \<longrightarrow> (\<exists>b. floor_ts f t = Inr b)"
    using assms by (metis (no_types, lifting) imageE list.set_map)
  then have "floor_column f (map created_at facts) =
      Inr (map (map_option (\<lambda>t. t - t mod freq_ns f)) (map created_at facts))"
    by (simp only: floor_column_Inr_iff simp_thms)
  then show ?thesis by (simp add: horarios_def)
qed

lemma horarios_overflow:
  assumes "r \<in> set facts" and "created_at r = Some t" and "floor_ts f t = Inl OverflowError"
  shows "horarios f facts = Inl OverflowError"
proof (cases "horarios f facts")
  case (Inl e)
  then show ?thesis using horarios_Inl by blast
next
  case (Inr hs)
  then obtain bs where "floor_column f (map created_at facts) = Inr bs"
    by (auto simp: horarios_def split: sum.splits)
  then have "\<forall>t. Some t \<in> set (map created_at facts) \<longrightarrow> (\<exists>b. floor_ts f t = Inr b)"
    unfolding floor_column_Inr_iff by (rule conjunct1)
  moreover have "Some t \<in> set (map created_at facts)"
    using assms(1,2) by (metis image_eqI list.set_map)
  ultimately show ?thesis using assms(3) by auto
qed



section \<open>Filters\<close>

lemma str_contains_error: "str_contains re_search pat = Inl e \<Longrightarrow> e = ReError"
  by (auto simp: str_contains_def split: if_splits option.splits)

lemma apply_filters_shape:
  "(\<forall>df. apply_filters re_search cfg df = Inl ReError) \<or>
   (\<exists>pu pg. \<forall>df. apply_filters re_search cfg df =
      Inr (filter (\<lambda>r. (f_brand cfg = [] \<or> brand_name r \<in> set (f_brand cfg)) \<and>
                        pu (na_str (user_id r)) \<and> pg (na_str (game_name r))) df))"
proof -
  let ?B = "\<lambda>r. f_brand cfg = [] \<or> brand_name r \<in> set (f_brand cfg)"
  have b: "(if f_brand cfg \<noteq> [] then filter (\<lambda>r. brand_name r \<in> set (f_brand cfg)) df else df) =
           filter ?B df" for df
    by simp
  consider (eu) "f_user cfg \<noteq> []" "str_contains re_search (f_user cfg) = Inl ReError"
    | (eg) "f_game cfg \<noteq> []" "str_contains re_search (f_game cfg) = Inl ReError"
    | (ok) pu pg where
        "f_user cfg = [] \<and> pu = (\<lambda>s. True) \<or>
         f_user cfg \<noteq> [] \<and> str_contains re_search (f_user cfg) = Inr pu"
        "f_game cfg = [] \<and> pg = (\<lambda>s. True) \<or>
         f_game cfg \<noteq> [] \<and> str_contains re_search (f_game cfg) = Inr pg"
  proof -
    have u: "f_user cfg \<noteq> [] \<and> str_contains re_search (f_user cfg) = Inl ReError \<or>
        (\<exists>pu. f_user cfg = [] \<and> pu = (\<lambda>s. True) \<or>
           f_user cfg \<noteq> [] \<and> str_contains re_search (f_user cfg) = Inr pu)"
      using str_contains_error[of re_search "f_user cfg"]
      by (cases "str_contains re_search (f_user cfg)") auto
    have g: "f_game cfg \<noteq> [] \<and> str_contains re_search (f_game cfg) = Inl ReError \<or>
        (\<exists>pg. f_game cfg = [] \<and> pg = (\<lambda>s. True) \<or>
           f_game cfg \<noteq> [] \<and> str_contains re_search (f_game cfg) = Inr pg)"
      using str_contains_error[of re_search "f_game cfg"]
      by (cases "str_contains re_search (f_game cfg)") auto
    from u g that show thesis by blast
  qed
  then show ?thesis
  proof cases
    case eu
    then have "apply_filters re_search cfg df = Inl ReError" for df
      by (simp add: apply_filters_def Let_def)
    then show ?thesis by blast
  next
    case eg
    have "apply_filters re_search cfg df = Inl ReError" for df
      using eg str_contains_error[of re_search "f_user cfg"]
      by (auto simp: apply_filters_def Let_def split: sum.splits)
    then show ?thesis by blast
  next
    case ok
    have "apply_filters re_search cfg df =
          Inr (filter (\<lambda>r. ?B r \<and> pu (na_str (user_id r)) \<and> pg (na_str (game_name r))) df)" for df
      unfolding apply_filters_def Let_def b using ok
      by (auto simp: conj_commute intro!: filter_cong)
    then show ?thesis by blast
  qed
qed

lemma apply_filters_Inr:
  assumes "apply_filters re_search cfg df = Inr dff"
  shows "\<exists>pu pg. \<forall>df'. apply_filters re_search cfg df' =
       Inr (filter (\<lambda>r. (f_brand cfg = [] \<or> brand_name r \<in> set (f_brand cfg)) \<and>
                         pu (na_str (user_id r)) \<and> pg (na_str (game_name r))) df')"
proof -
  from apply_filters_shape[of re_search cfg]
  show ?thesis
  proof
    assume "\<forall>df. apply_filters re_search cfg df = Inl ReError"
    then have "apply_filters re_search cfg df = Inl ReError" by (rule spec)
    with assms show ?thesis by simp
  qed
qed

lemma apply_filters_Inl:
  assumes "apply_filters re_search cfg df = Inl e"
  shows "e = ReError" and "apply_filters re_search cfg df' = Inl ReError"
proof -
  from apply_filters_shape[of re_search cfg]
  have a: "\<forall>df. apply_filters re_search cfg df = Inl ReError"
  proof
    assume "\<exists>pu pg. \<forall>df. apply_filters re_search cfg df =
      Inr (filter (\<lambda>r. (f_brand cfg = [] \<or> brand_name r \<in> set (f_brand cfg)) \<and>
                        pu (na_str (user_id r)) \<and> pg (na_str (game_name r))) df)"
    with assms show ?thesis by auto
  qed
  with assms show "e = ReError" by simp
  from a show "apply_filters re_search cfg df' = Inl ReError" by (rule spec)
qed

lemma apply_filters_brand_only:
  assumes "f_user cfg = []" and "f_game cfg = []"
  shows "apply_filters re_search cfg df =
         Inr (filter (\<lambda>r. f_brand cfg = [] \<or> brand_name r \<in> set (f_brand cfg)) df)"
  using assms by (simp add: apply_filters_def Let_def)

lemma apply_filters_none:
  "apply_filters re_search \<lparr>f_brand = [], f_user = [], f_game = []\<rparr> df = Inr df"
  by (simp add: apply_filters_def)

lemma set_apply_filters: "apply_filters re_search cfg df = Inr dff \<Longrightarrow> set dff \<subseteq> set df"
proof -
  assume a: "apply_filters re_search cfg df = Inr dff"
  from apply_filters_Inr[OF a] obtain pu pg where "\<forall>df'. apply_filters re_search cfg df' =
       Inr (filter (\<lambda>r. (f_brand cfg = [] \<or> brand_name r \<in> set (f_brand cfg)) \<and>
                         pu (na_str (user_id r)) \<and> pg (na_str (game_name r))) df')"
    by blast
  then have "apply_filters re_search cfg df =
       Inr (filter (\<lambda>r. (f_brand cfg = [] \<or> brand_name r \<in> set (f_brand cfg)) \<and>
                         pu (na_str (user_id r)) \<and> pg (na_str (game_name r))) df)"
    by (rule spec)
  with a show ?thesis by auto
qed

section \<open>The fact table\<close>

lemma compute_Inr:
  assumes "compute f dff = Inr out"
  shows "out_refs_brand out = refs_brand dff"
    and "out_cliente_jogo out = cliente_jogo dff"
    and "horarios f (refs_brand dff) = Inr (out_horarios out)"
    and "out_jogos out = jogos (refs_brand dff)"
    and "out_top_jogos_geral out = top_jogos_geral (jogos (refs_brand dff))"
    and "out_total_rollbacks out = total_rollbacks (refs_brand dff)"
  using assms by (auto simp: compute_def Let_def split: sum.splits)

lemma compute_total:
  assumes "\<forall>r\<in>set dff. \<forall>t. created_at r = Some t \<longrightarrow> (\<exists>b. floor_ts f t = Inr b)"
  shows "\<exists>out. compute f dff = Inr out"
proof -
  have "set (refs_brand dff) \<subseteq> set dff"
    unfolding refs_brand_def by (rule set_drop_duplicates)
  with assms have "\<forall>r\<in>set (refs_brand dff). \<forall>t. created_at r = Some t \<longrightarrow>
      (\<exists>b. floor_ts f t = Inr b)"
    by blast
  from horarios_total[OF this] show ?thesis
    by (auto simp: compute_def Let_def)
qed

lemma compute_Inl: "compute f dff = Inl e \<Longrightarrow> e = OverflowError"
  by (auto simp: compute_def Let_def dest: horarios_Inl split: sum.splits)

text \<open>
  C1. The fact table holds, for every row of the table that reaches the deduplication,
  exactly one row with that row's brand and reference, and it is the first such row in
  input order, with all its columns; no two rows of the fact table have the same brand
  and reference, and every row of the fact table is a row of the input. The fact table
  among the results of a run is this table. With no filter set, the table that reaches
  the deduplication is the cleaned table.
\<close>

theorem refs_brand_one_row_per_key:
  "(r \<in> set dff \<longrightarrow>
      length (filter (\<lambda>x. (brand_name x, reference x) = (brand_name r, reference r))
                (refs_brand dff)) = 1 \<and>
      find (\<lambda>x. (brand_name x, reference x) = (brand_name r, reference r)) (refs_brand dff) =
      find (\<lambda>x. (brand_name x, reference x) = (brand_name r, reference r)) dff) \<and>
   distinct (map (\<lambda>x. (brand_name x, reference x)) (refs_brand dff)) \<and>
   set (refs_brand dff) \<subseteq> set dff \<and>
   (compute f dff = Inr out \<longrightarrow> out_refs_brand out = refs_brand dff) \<and>
   apply_filters re_search \<lparr>f_brand = [], f_user = [], f_game = []\<rparr> df = Inr df"
proof -
  let ?key = "\<lambda>x. (brand_name x, reference x)"
  have a: "length (filter (\<lambda>x. ?key x = ?key r) (refs_brand dff)) = 1" if "r \<in> set dff"
    using that unfolding refs_brand_def by (simp only: count_drop_duplicates) simp
  have b: "find (\<lambda>x. ?key x = ?key r) (refs_brand dff) = find (\<lambda>x. ?key x = ?key r) dff"
    unfolding refs_brand_def by (rule find_drop_duplicates)
  have c: "distinct (map ?key (refs_brand dff))"
    unfolding refs_brand_def by (rule distinct_drop_duplicates)
  have d: "set (refs_brand dff) \<subseteq> set dff"
    unfolding refs_brand_def by (rule set_drop_duplicates)
  have e: "out_refs_brand out = refs_brand dff" if "compute f dff = Inr out"
    using that by (rule compute_Inr)
  from a b c d e apply_filters_none[of re_search df] show ?thesis by blast
qed

theorem refs_brand_one_row_per_key_witness:
  "\<lparr>user_id = Some ''u2'', game_name = Some ''g1'', reference = Some ''refA'',
       created_at = Some 20, brand_name = ''7K''\<rparr> \<in> set
     [\<lparr>user_id = Some ''u1'', game_name = Some ''g1'', reference = Some ''refA'',
       created_at = Some 10, brand_name = ''7K''\<rparr>,
      \<lparr>user_id = Some ''u2'', game_name = Some ''g1'', reference = Some ''refA'',
       created_at = Some 20, brand_name = ''7K''\<rparr>,
      \<lparr>user_id = Some ''u2'', game_name = Some ''g1'', reference = Some ''refB'',
       created_at = Some 20, brand_name = ''7K''\<rparr>,
      \<lparr>user_id = Some ''u3'', game_name = Some ''g1'', reference = Some ''refA'',
       created_at = Some 30, brand_name = ''Cassino''\<rparr>,
      \<lparr>user_id = Some ''u1'', game_name = Some ''g2'', reference = Some ''refC'',
       created_at = Some 40, brand_name = ''Vera''\<rparr>] \<and>
   length (filter (\<lambda>x. (brand_name x, reference x) = (''7K'', Some ''refA''))
     (refs_brand
     [\<lparr>user_id = Some ''u1'', game_name = Some ''g1'', reference = Some ''refA'',
       created_at = Some 10, brand_name = ''7K''\<rparr>,
      \<lparr>user_id = Some ''u2'', game_name = Some ''g1'', reference = Some ''refA'',
       created_at = Some 20, brand_name = ''7K''\<rparr>,
      \<lparr>user_id = Some ''u2'', game_name = Some ''g1'', reference = Some ''refB'',
       created_at = Some 20, brand_name = ''7K''\<rparr>,
      \<lparr>user_id = Some ''u3'', game_name = Some ''g1'', reference = Some ''refA'',
       created_at = Some 30, brand_name = ''Cassino''\<rparr>,
      \<lparr>user_id = Some ''u1'', game_name = Some ''g2'', reference = Some ''refC'',
       created_at = Some 40, brand_name = ''Vera''\<rparr>])) = 1 \<and>
   find (\<lambda>x. (brand_name x, reference x) = (''7K'', Some ''refA''))
     (refs_brand
     [\<lparr>user_id = Some ''u1'', game_name = Some ''g1'', reference = Some ''refA'',
       created_at = Some 10, brand_name = ''7K''\<rparr>,
      \<lparr>user_id = Some ''u2'', game_name = Some ''g1'', reference = Some ''refA'',
       created_at = Some 20, brand_name = ''7K''\<rparr>,
      \<lparr>user_id = Some ''u2'', game_name = Some ''g1'', reference = Some ''refB'',
       created_at = Some 20, brand_name = ''7K''\<rparr>,
      \<lparr>user_id = Some ''u3'', game_name = Some ''g1'', reference = Some ''refA'',
       created_at = Some 30, brand_name = ''Cassino''\<rparr>,
      \<lparr>user_id = Some ''u1'', game_name = Some ''g2'', reference = Some ''refC'',
       created_at = Some 40, brand_name = ''Vera''\<rparr>]) =
   Some \<lparr>user_id = Some ''u1'', game_name = Some ''g1'', reference = Some ''refA'',
       created_at = Some 10, brand_name = ''7K''\<rparr> \<and>
   (\<exists>out. compute Freq_H
     [\<lparr>user_id = Some ''u1'', game_name = Some ''g1'', reference = Some ''refA'',
       created_at = Some 10, brand_name = ''7K''\<rparr>,
      \<lparr>user_id = Some ''u2'', game_name = Some ''g1'', reference = Some ''refA'',
       created_at = Some 20, brand_name = ''7K''\<rparr>,
      \<lparr>user_id = Some ''u2'', game_name = Some ''g1'', reference = Some ''refB'',
       created_at = Some 20, brand_name = ''7K''\<rparr>,
      \<lparr>user_id = Some ''u3'', game_name = Some ''g1'', reference = Some ''refA'',
       created_at = Some 30, brand_name = ''Cassino''\<rparr>,
      \<lparr>user_id = Some ''u1'', game_name = Some ''g2'', reference = Some ''refC'',
       created_at = Some 40, brand_name = ''Vera''\<rparr>] = Inr out \<and>
     out_refs_brand out =
     [\<lparr>user_id = Some ''u1'', game_name = Some ''g1'', reference = Some ''refA'',
       created_at = Some 10, brand_name = ''7K''\<rparr>,
      \<lparr>user_id = Some ''u2'', game_name = Some ''g1'', reference = Some ''refB'',
       created_at = Some 20, brand_name = ''7K''\<rparr>,
      \<lparr>user_id = Some ''u3'', game_name = Some ''g1'', reference = Some ''refA'',
       created_at = Some 30, brand_name = ''Cassino''\<rparr>,
      \<lparr>user_id = Some ''u1'', game_name = Some ''g2'', reference = Some ''refC'',
       created_at = Some 40, brand_name = ''Vera''\<rparr>])"
proof -
  let ?dff = "[\<lparr>user_id = Some ''u1'', game_name = Some ''g1'', reference = Some ''refA'',
       created_at = Some 10, brand_name = ''7K''\<rparr>,
      \<lparr>user_id = Some ''u2'', game_name = Some ''g1'', reference = Some ''refA'',
       created_at = Some 20, brand_name = ''7K''\<rparr>,
      \<lparr>user_id = Some ''u2'', game_name = Some ''g1'', reference = Some ''refB'',
       created_at = Some 20, brand_name = ''7K''\<rparr>,
      \<lparr>user_id = Some ''u3'', game_name = Some ''g1'', reference = Some ''refA'',
       created_at = Some 30, brand_name = ''Cassino''\<rparr>,
      \<lparr>user_id = Some ''u1'', game_name = Some ''g2'', reference = Some ''refC'',
       created_at = Some 40, brand_name = ''Vera''\<rparr>]"
  let ?ra = "\<lparr>user_id = Some ''u1'', game_name = Some ''g1'', reference = Some ''refA'',
       created_at = Some 10, brand_name = ''7K''\<rparr>"
  let ?rb = "\<lparr>user_id = Some ''u2'', game_name = Some ''g1'', reference = Some ''refA'',
       created_at = Some 20, brand_name = ''7K''\<rparr>"
  have m: "?rb \<in> set ?dff" by simp
  have f: "find (\<lambda>x. (brand_name x, reference x) = (brand_name ?rb, reference ?rb)) ?dff = Some ?ra"
    by simp
  have "\<forall>r\<in>set ?dff. \<forall>t. created_at r = Some t \<longrightarrow> (\<exists>b. floor_ts Freq_H t = Inr b)"
    by (simp add: floor_ts_Inr_iff freq_ns_def)
  from compute_total[OF this] obtain out where c: "compute Freq_H ?dff = Inr out" by blast
  note t = refs_brand_one_row_per_key[of ?rb ?dff Freq_H out "\<lambda>p. None" "[]"]
  from t m f
  have a: "length (filter (\<lambda>x. (brand_name x, reference x) = (''7K'', Some ''refA''))
       (refs_brand ?dff)) = 1"
    "find (\<lambda>x. (brand_name x, reference x) = (''7K'', Some ''refA'')) (refs_brand ?dff) = Some ?ra"
    by simp_all
  have rb: "refs_brand ?dff = [\<lparr>user_id = Some ''u1'', game_name = Some ''g1'', reference = Some ''refA'',
       created_at = Some 10, brand_name = ''7K''\<rparr>,
      \<lparr>user_id = Some ''u2'', game_name = Some ''g1'', reference = Some ''refB'',
       created_at = Some 20, brand_name = ''7K''\<rparr>,
      \<lparr>user_id = Some ''u3'', game_name = Some ''g1'', reference = Some ''refA'',
       created_at = Some 30, brand_name = ''Cassino''\<rparr>,
      \<lparr>user_id = Some ''u1'', game_name = Some ''g2'', reference = Some ''refC'',
       created_at = Some 40, brand_name = ''Vera''\<rparr>]"
    by code_simp
  from t c have "out_refs_brand out = refs_brand ?dff" by blast
  with rb have o: "out_refs_brand out = [\<lparr>user_id = Some ''u1'', game_name = Some ''g1'', reference = Some ''refA'',
       created_at = Some 10, brand_name = ''7K''\<rparr>,
      \<lparr>user_id = Some ''u2'', game_name = Some ''g1'', reference = Some ''refB'',
       created_at = Some 20, brand_name = ''7K''\<rparr>,
      \<lparr>user_id = Some ''u3'', game_name = Some ''g1'', reference = Some ''refA'',
       created_at = Some 30, brand_name = ''Cassino''\<rparr>,
      \<lparr>user_id = Some ''u1'', game_name = Some ''g2'', reference = Some ''refC'',
       created_at = Some 40, brand_name = ''Vera''\<rparr>]"
    by (simp only:)
  from m a c o show ?thesis by blast
qed



section \<open>Filtering and deduplication\<close>

lemma str_contains_literal:
  "\<not> list_ex is_meta pat \<Longrightarrow> str_contains re_search pat = Inr (occurs_ci pat)"
  by (simp add: str_contains_def)

lemma refs_brand_filter_agree:
  assumes "\<forall>x\<in>set df. \<forall>y\<in>set df. brand_name x = brand_name y \<and> reference x = reference y \<longrightarrow>
             user_id x = user_id y \<and> game_name x = game_name y"
    and "apply_filters re_search cfg df = Inr dff"
  shows "apply_filters re_search cfg (refs_brand df) = Inr (refs_brand dff)"
proof -
  from apply_filters_Inr[OF assms(2)] obtain pu pg where
    a: "\<forall>df'. apply_filters re_search cfg df' =
       Inr (filter (\<lambda>r. (f_brand cfg = [] \<or> brand_name r \<in> set (f_brand cfg)) \<and>
                         pu (na_str (user_id r)) \<and> pg (na_str (game_name r))) df')"
    by blast
  let ?P = "\<lambda>r. (f_brand cfg = [] \<or> brand_name r \<in> set (f_brand cfg)) \<and>
               pu (na_str (user_id r)) \<and> pg (na_str (game_name r))"
  have "?P x = ?P y"
    if "x \<in> set df" "y \<in> set df" "(brand_name x, reference x) = (brand_name y, reference y)"
    for x y
  proof -
    from that(3) have k: "brand_name x = brand_name y" "reference x = reference y"
      by simp_all
    with assms(1) that(1,2) have "user_id x = user_id y" "game_name x = game_name y"
      by blast+
    with k show ?thesis by (simp only:)
  qed
  then have "\<forall>x\<in>set df. \<forall>y\<in>set df. (brand_name x, reference x) = (brand_name y, reference y)
          \<longrightarrow> ?P x = ?P y"
    by blast
  from drop_duplicates_filter[OF this]
  have c: "refs_brand (filter ?P df) = filter ?P (refs_brand df)"
    by (simp only: refs_brand_def)
  from a have "apply_filters re_search cfg df = Inr (filter ?P df)" by (rule spec)
  with assms(2) have d: "dff = filter ?P df" by simp
  from a have "apply_filters re_search cfg (refs_brand df) = Inr (filter ?P (refs_brand df))"
    by (rule spec)
  then show ?thesis unfolding d c .
qed

lemma refs_brand_filter_brand_only:
  assumes "f_user cfg = []" and "f_game cfg = []"
  shows "\<exists>dff. apply_filters re_search cfg df = Inr dff \<and>
           apply_filters re_search cfg (refs_brand df) = Inr (refs_brand dff)"
proof -
  let ?P = "\<lambda>r. f_brand cfg = [] \<or> brand_name r \<in> set (f_brand cfg)"
  have "?P x = ?P y"
    if "(brand_name x, reference x) = (brand_name y, reference y)" for x y :: row
  proof -
    from that have "brand_name x = brand_name y" by simp
    then show ?thesis by (simp only:)
  qed
  then have "\<forall>x\<in>set df. \<forall>y\<in>set df. (brand_name x, reference x) = (brand_name y, reference y)
          \<longrightarrow> ?P x = ?P y"
    by blast
  from drop_duplicates_filter[OF this]
  have c: "refs_brand (filter ?P df) = filter ?P (refs_brand df)"
    by (simp only: refs_brand_def)
  have "apply_filters re_search cfg df = Inr (filter ?P df)"
    and "apply_filters re_search cfg (refs_brand df) = Inr (filter ?P (refs_brand df))"
    using assms by (simp_all add: apply_filters_brand_only)
  with c show ?thesis by simp
qed

lemma client_game_filter:
  assumes "apply_filters re_search cfg df = Inr dff"
  shows "apply_filters re_search cfg
     (drop_duplicates (\<lambda>r. (brand_name r, user_id r, game_name r, reference r))
        (filter (\<lambda>r. user_id r \<noteq> None \<and> game_name r \<noteq> None \<and> reference r \<noteq> None) df)) =
   Inr (drop_duplicates (\<lambda>r. (brand_name r, user_id r, game_name r, reference r))
     (filter (\<lambda>r. user_id r \<noteq> None \<and> game_name r \<noteq> None \<and> reference r \<noteq> None) dff))"
proof -
  from apply_filters_Inr[OF assms] obtain pu pg where
    a: "\<forall>df'. apply_filters re_search cfg df' =
       Inr (filter (\<lambda>r. (f_brand cfg = [] \<or> brand_name r \<in> set (f_brand cfg)) \<and>
                         pu (na_str (user_id r)) \<and> pg (na_str (game_name r))) df')"
    by blast
  let ?P = "\<lambda>r. (f_brand cfg = [] \<or> brand_name r \<in> set (f_brand cfg)) \<and>
               pu (na_str (user_id r)) \<and> pg (na_str (game_name r))"
  let ?Q = "\<lambda>r. user_id r \<noteq> None \<and> game_name r \<noteq> None \<and> reference r \<noteq> None"
  let ?key = "\<lambda>r. (brand_name r, user_id r, game_name r, reference r)"
  have c: "filter ?Q (filter ?P df) = filter ?P (filter ?Q df)"
    by (simp only: filter_filter conj_commute)
  have "?P x = ?P y" if "?key x = ?key y" for x y
  proof -
    from that have "brand_name x = brand_name y" "user_id x = user_id y" "game_name x = game_name y"
      by simp_all
    then show ?thesis by (simp only:)
  qed
  then have "\<forall>x\<in>set (filter ?Q df). \<forall>y\<in>set (filter ?Q df). ?key x = ?key y \<longrightarrow> ?P x = ?P y"
    by blast
  from drop_duplicates_filter[OF this]
  have e: "drop_duplicates ?key (filter ?Q (filter ?P df)) =
           filter ?P (drop_duplicates ?key (filter ?Q df))"
    unfolding c .
  from a have "apply_filters re_search cfg df = Inr (filter ?P df)" by (rule spec)
  with assms have d: "dff = filter ?P df" by simp
  from a have "apply_filters re_search cfg (drop_duplicates ?key (filter ?Q df)) =
      Inr (filter ?P (drop_duplicates ?key (filter ?Q df)))"
    by (rule spec)
  then show ?thesis unfolding d e .
qed

text \<open>
  C3, as the code has it. The fact table of a run is the deduplication of the filtered
  table. Filtering the deduplicated full table gives the same fact table when the rows
  that share a brand and a reference agree in \<open>user_id\<close> and \<open>game_name\<close>, and in
  particular when only the brand filter is set. For the rows behind the per-user-game
  counts, whose key holds every filtered column, filtering and deduplicating always
  commute. A pattern that does not compile raises in either order.
\<close>

theorem refs_brand_filter_order:
  "(apply_filters re_search cfg df = Inr dff \<and> compute f dff = Inr out \<longrightarrow>
      out_refs_brand out = refs_brand dff) \<and>
   ((\<forall>x\<in>set df. \<forall>y\<in>set df. brand_name x = brand_name y \<and> reference x = reference y \<longrightarrow>
        user_id x = user_id y \<and> game_name x = game_name y) \<and>
    apply_filters re_search cfg df = Inr dff \<longrightarrow>
      apply_filters re_search cfg (refs_brand df) = Inr (refs_brand dff)) \<and>
   (f_user cfg = [] \<and> f_game cfg = [] \<longrightarrow>
      (\<exists>dff. apply_filters re_search cfg df = Inr dff \<and>
         apply_filters re_search cfg (refs_brand df) = Inr (refs_brand dff))) \<and>
   (apply_filters re_search cfg df = Inr dff \<longrightarrow>
      apply_filters re_search cfg
        (drop_duplicates (\<lambda>r. (brand_name r, user_id r, game_name r, reference r))
           (filter (\<lambda>r. user_id r \<noteq> None \<and> game_name r \<noteq> None \<and> reference r \<noteq> None) df)) =
      Inr (drop_duplicates (\<lambda>r. (brand_name r, user_id r, game_name r, reference r))
        (filter (\<lambda>r. user_id r \<noteq> None \<and> game_name r \<noteq> None \<and> reference r \<noteq> None) dff))) \<and>
   (apply_filters re_search cfg df = Inl e \<longrightarrow>
      e = ReError \<and> apply_filters re_search cfg (refs_brand df) = Inl ReError)"
proof -
  have 1: "out_refs_brand out = refs_brand dff" if "compute f dff = Inr out"
    using that by (rule compute_Inr)
  from 1 refs_brand_filter_agree[of df re_search cfg dff]
    refs_brand_filter_brand_only[of cfg re_search df]
    client_game_filter[of re_search cfg df dff]
    apply_filters_Inl(1)[of re_search cfg df e]
    apply_filters_Inl(2)[of re_search cfg df e "refs_brand df"]
  show ?thesis by blast
qed

theorem refs_brand_filter_order_witness:
  "(\<exists>dff. apply_filters (\<lambda>p. None) \<lparr>f_brand = [''7K''], f_user = [], f_game = []\<rparr>
     [\<lparr>user_id = Some ''u1'', game_name = Some ''g1'', reference = Some ''refA'',
       created_at = Some 10, brand_name = ''7K''\<rparr>,
      \<lparr>user_id = Some ''u2'', game_name = Some ''g1'', reference = Some ''refA'',
       created_at = Some 20, brand_name = ''7K''\<rparr>,
      \<lparr>user_id = Some ''u2'', game_name = Some ''g1'', reference = Some ''refB'',
       created_at = Some 20, brand_name = ''7K''\<rparr>,
      \<lparr>user_id = Some ''u3'', game_name = Some ''g1'', reference = Some ''refA'',
       created_at = Some 30, brand_name = ''Cassino''\<rparr>,
      \<lparr>user_id = Some ''u1'', game_name = Some ''g2'', reference = Some ''refC'',
       created_at = Some 40, brand_name = ''Vera''\<rparr>] = Inr dff \<and>
     apply_filters (\<lambda>p. None) \<lparr>f_brand = [''7K''], f_user = [], f_game = []\<rparr> (refs_brand
     [\<lparr>user_id = Some ''u1'', game_name = Some ''g1'', reference = Some ''refA'',
       created_at = Some 10, brand_name = ''7K''\<rparr>,
      \<lparr>user_id = Some ''u2'', game_name = Some ''g1'', reference = Some ''refA'',
       created_at = Some 20, brand_name = ''7K''\<rparr>,
      \<lparr>user_id = Some ''u2'', game_name = Some ''g1'', reference = Some ''refB'',
       created_at = Some 20, brand_name = ''7K''\<rparr>,
      \<lparr>user_id = Some ''u3'', game_name = Some ''g1'', reference = Some ''refA'',
       created_at = Some 30, brand_name = ''Cassino''\<rparr>,
      \<lparr>user_id = Some ''u1'', game_name = Some ''g2'', reference = Some ''refC'',
       created_at = Some 40, brand_name = ''Vera''\<rparr>]) = Inr (refs_brand dff)) \<and>
   apply_filters (\<lambda>p. None) \<lparr>f_brand = [], f_user = ''U1'', f_game = ''G1''\<rparr>
     [\<lparr>user_id = Some ''u1'', game_name = Some ''g1'', reference = Some ''refA'',
       created_at = Some 10, brand_name = ''7K''\<rparr>,
      \<lparr>user_id = Some ''u2'', game_name = Some ''g1'', reference = Some ''refB'',
       created_at = Some 20, brand_name = ''7K''\<rparr>,
      \<lparr>user_id = Some ''u3'', game_name = Some ''g1'', reference = Some ''refA'',
       created_at = Some 30, brand_name = ''Cassino''\<rparr>,
      \<lparr>user_id = Some ''u1'', game_name = Some ''g2'', reference = Some ''refC'',
       created_at = Some 40, brand_name = ''Vera''\<rparr>] =
     Inr [\<lparr>user_id = Some ''u1'', game_name = Some ''g1'', reference = Some ''refA'',
       created_at = Some 10, brand_name = ''7K''\<rparr>] \<and>
   apply_filters (\<lambda>p. None) \<lparr>f_brand = [], f_user = ''U1'', f_game = ''G1''\<rparr> (refs_brand
     [\<lparr>user_id = Some ''u1'', game_name = Some ''g1'', reference = Some ''refA'',
       created_at = Some 10, brand_name = ''7K''\<rparr>,
      \<lparr>user_id = Some ''u2'', game_name = Some ''g1'', reference = Some ''refB'',
       created_at = Some 20, brand_name = ''7K''\<rparr>,
      \<lparr>user_id = Some ''u3'', game_name = Some ''g1'', reference = Some ''refA'',
       created_at = Some 30, brand_name = ''Cassino''\<rparr>,
      \<lparr>user_id = Some ''u1'', game_name = Some ''g2'', reference = Some ''refC'',
       created_at = Some 40, brand_name = ''Vera''\<rparr>]) =
     Inr (refs_brand [\<lparr>user_id = Some ''u1'', game_name = Some ''g1'', reference = Some ''refA'',
       created_at = Some 10, brand_name = ''7K''\<rparr>]) \<and>
   (\<exists>out. compute Freq_H [\<lparr>user_id = Some ''u1'', game_name = Some ''g1'', reference = Some ''refA'',
       created_at = Some 10, brand_name = ''7K''\<rparr>] = Inr out \<and>
      out_refs_brand out = refs_brand [\<lparr>user_id = Some ''u1'', game_name = Some ''g1'', reference = Some ''refA'',
       created_at = Some 10, brand_name = ''7K''\<rparr>]) \<and>
   apply_filters (\<lambda>p. None) \<lparr>f_brand = [], f_user = ''('', f_game = []\<rparr>
     [\<lparr>user_id = Some ''u1'', game_name = Some ''g1'', reference = Some ''refA'',
       created_at = Some 10, brand_name = ''7K''\<rparr>,
      \<lparr>user_id = Some ''u2'', game_name = Some ''g1'', reference = Some ''refA'',
       created_at = Some 20, brand_name = ''7K''\<rparr>,
      \<lparr>user_id = Some ''u2'', game_name = Some ''g1'', reference = Some ''refB'',
       created_at = Some 20, brand_name = ''7K''\<rparr>,
      \<lparr>user_id = Some ''u3'', game_name = Some ''g1'', reference = Some ''refA'',
       created_at = Some 30, brand_name = ''Cassino''\<rparr>,
      \<lparr>user_id = Some ''u1'', game_name = Some ''g2'', reference = Some ''refC'',
       created_at = Some 40, brand_name = ''Vera''\<rparr>] = Inl ReError \<and>
   apply_filters (\<lambda>p. None) \<lparr>f_brand = [], f_user = ''('', f_game = []\<rparr> (refs_brand
     [\<lparr>user_id = Some ''u1'', game_name = Some ''g1'', reference = Some ''refA'',
       created_at = Some 10, brand_name = ''7K''\<rparr>,
      \<lparr>user_id = Some ''u2'', game_name = Some ''g1'', reference = Some ''refA'',
       created_at = Some 20, brand_name = ''7K''\<rparr>,
      \<lparr>user_id = Some ''u2'', game_name = Some ''g1'', reference = Some ''refB'',
       created_at = Some 20, brand_name = ''7K''\<rparr>,
      \<lparr>user_id = Some ''u3'', game_name = Some ''g1'', reference = Some ''refA'',
       created_at = Some 30, brand_name = ''Cassino''\<rparr>,
      \<lparr>user_id = Some ''u1'', game_name = Some ''g2'', reference = Some ''refC'',
       created_at = Some 40, brand_name = ''Vera''\<rparr>]) = Inl ReError"
proof -
  let ?e = "(\<lambda>p. None)"
  let ?ra = "\<lparr>user_id = Some ''u1'', game_name = Some ''g1'', reference = Some ''refA'',
       created_at = Some 10, brand_name = ''7K''\<rparr>"
  let ?rows = "[\<lparr>user_id = Some ''u1'', game_name = Some ''g1'', reference = Some ''refA'',
       created_at = Some 10, brand_name = ''7K''\<rparr>,
      \<lparr>user_id = Some ''u2'', game_name = Some ''g1'', reference = Some ''refA'',
       created_at = Some 20, brand_name = ''7K''\<rparr>,
      \<lparr>user_id = Some ''u2'', game_name = Some ''g1'', reference = Some ''refB'',
       created_at = Some 20, brand_name = ''7K''\<rparr>,
      \<lparr>user_id = Some ''u3'', game_name = Some ''g1'', reference = Some ''refA'',
       created_at = Some 30, brand_name = ''Cassino''\<rparr>,
      \<lparr>user_id = Some ''u1'', game_name = Some ''g2'', reference = Some ''refC'',
       created_at = Some 40, brand_name = ''Vera''\<rparr>]"
  let ?facts = "[\<lparr>user_id = Some ''u1'', game_name = Some ''g1'', reference = Some ''refA'',
       created_at = Some 10, brand_name = ''7K''\<rparr>,
      \<lparr>user_id = Some ''u2'', game_name = Some ''g1'', reference = Some ''refB'',
       created_at = Some 20, brand_name = ''7K''\<rparr>,
      \<lparr>user_id = Some ''u3'', game_name = Some ''g1'', reference = Some ''refA'',
       created_at = Some 30, brand_name = ''Cassino''\<rparr>,
      \<lparr>user_id = Some ''u1'', game_name = Some ''g2'', reference = Some ''refC'',
       created_at = Some 40, brand_name = ''Vera''\<rparr>]"
  let ?b = "\<lparr>f_brand = [''7K''], f_user = [], f_game = []\<rparr>"
  let ?g = "\<lparr>f_brand = [], f_user = ''U1'', f_game = ''G1''\<rparr>"
  let ?bad = "\<lparr>f_brand = [], f_user = ''('', f_game = []\<rparr>"
  have "\<forall>r\<in>set [?ra]. \<forall>t. created_at r = Some t \<longrightarrow> (\<exists>b. floor_ts Freq_H t = Inr b)"
    by (simp add: floor_ts_Inr_iff freq_ns_def)
  from compute_total[OF this] obtain out where c: "compute Freq_H [?ra] = Inr out" by blast
  have hb: "f_user ?b = [] \<and> f_game ?b = []" by simp
  have b: "\<exists>dff. apply_filters ?e ?b ?rows = Inr dff \<and>
      apply_filters ?e ?b (refs_brand ?rows) = Inr (refs_brand dff)"
    using refs_brand_filter_order[of ?e ?b ?rows "[]" Freq_H out OverflowError,
        THEN conjunct2, THEN conjunct2, THEN conjunct1] hb
    by (rule mp)
  have ag: "\<forall>x\<in>set ?facts. \<forall>y\<in>set ?facts.
      brand_name x = brand_name y \<and> reference x = reference y \<longrightarrow>
        user_id x = user_id y \<and> game_name x = game_name y"
    by simp
  have fg: "apply_filters ?e ?g ?facts = Inr [?ra]" by code_simp
  have g: "apply_filters ?e ?g (refs_brand ?facts) = Inr (refs_brand [?ra])"
    using refs_brand_filter_order[of ?e ?g ?facts "[?ra]" Freq_H out OverflowError,
        THEN conjunct2, THEN conjunct1] ag fg
    by blast
  have "out_refs_brand out = refs_brand [?ra]"
    using refs_brand_filter_order[of ?e ?g ?facts "[?ra]" Freq_H out OverflowError,
        THEN conjunct1] fg c
    by blast
  with c have o: "\<exists>out. compute Freq_H [?ra] = Inr out \<and> out_refs_brand out = refs_brand [?ra]"
    by blast
  have eb: "apply_filters ?e ?bad ?rows = Inl ReError" by code_simp
  have "ReError = ReError \<and> apply_filters ?e ?bad (refs_brand ?rows) = Inl ReError"
    using refs_brand_filter_order[of ?e ?bad ?rows "[]" Freq_H out ReError,
        THEN conjunct2, THEN conjunct2, THEN conjunct2, THEN conjunct2] eb
    by (rule mp)
  then have er: "apply_filters ?e ?bad (refs_brand ?rows) = Inl ReError" by (rule conjunct2)
  from b fg g o eb er show ?thesis by blast
qed

theorem filter_then_dedup_differs:
  "apply_filters (\<lambda>p. None) \<lparr>f_brand = [], f_user = ''u2'', f_game = []\<rparr>
     [\<lparr>user_id = Some ''u1'', game_name = Some ''g1'', reference = Some ''refA'',
       created_at = Some 10, brand_name = ''7K''\<rparr>,
      \<lparr>user_id = Some ''u2'', game_name = Some ''g1'', reference = Some ''refA'',
       created_at = Some 20, brand_name = ''7K''\<rparr>] =
     Inr [\<lparr>user_id = Some ''u2'', game_name = Some ''g1'', reference = Some ''refA'',
       created_at = Some 20, brand_name = ''7K''\<rparr>] \<and>
   refs_brand
     [\<lparr>user_id = Some ''u2'', game_name = Some ''g1'', reference = Some ''refA'',
       created_at = Some 20, brand_name = ''7K''\<rparr>] =
     [\<lparr>user_id = Some ''u2'', game_name = Some ''g1'', reference = Some ''refA'',
       created_at = Some 20, brand_name = ''7K''\<rparr>] \<and>
   refs_brand
     [\<lparr>user_id = Some ''u1'', game_name = Some ''g1'', reference = Some ''refA'',
       created_at = Some 10, brand_name = ''7K''\<rparr>,
      \<lparr>user_id = Some ''u2'', game_name = Some ''g1'', reference = Some ''refA'',
       created_at = Some 20, brand_name = ''7K''\<rparr>] =
     [\<lparr>user_id = Some ''u1'', game_name = Some ''g1'', reference = Some ''refA'',
       created_at = Some 10, brand_name = ''7K''\<rparr>] \<and>
   apply_filters (\<lambda>p. None) \<lparr>f_brand = [], f_user = ''u2'', f_game = []\<rparr>
     [\<lparr>user_id = Some ''u1'', game_name = Some ''g1'', reference = Some ''refA'',
       created_at = Some 10, brand_name = ''7K''\<rparr>] = Inr [] \<and>
   total_rollbacks
     [\<lparr>user_id = Some ''u2'', game_name = Some ''g1'', reference = Some ''refA'',
       created_at = Some 20, brand_name = ''7K''\<rparr>] = 1 \<and>
   total_rollbacks [] = 0"
  by code_simp



section \<open>Rows without reference or timestamp\<close>

lemma drop_invalid_filter:
  "drop_invalid df =
   filter (\<lambda>r. reference r \<noteq> None \<and> reference r \<noteq> Some [] \<and> created_at r \<noteq> None) df"
proof -
  have "((reference r \<noteq> None \<and> created_at r \<noteq> None) \<and> 0 < length (na_str (reference r))) \<longleftrightarrow>
        (reference r \<noteq> None \<and> reference r \<noteq> Some [] \<and> created_at r \<noteq> None)" for r :: row
    by (cases "reference r") (auto simp: na_str_def)
  then have "filter (\<lambda>r. (reference r \<noteq> None \<and> created_at r \<noteq> None) \<and>
                 0 < length (na_str (reference r))) df =
             filter (\<lambda>r. reference r \<noteq> None \<and> reference r \<noteq> Some [] \<and> created_at r \<noteq> None) df"
    by (intro filter_cong) blast+
  then show ?thesis
    unfolding drop_invalid_def Let_def filter_filter by (simp only: conj_commute)
qed

lemma drop_invalid_skip:
  assumes "reference bad = None \<or> reference bad = Some [] \<or> created_at bad = None"
  shows "drop_invalid (a @ bad # b) = drop_invalid (a @ b)"
  using assms unfolding drop_invalid_filter by auto

lemma clean_rows_valid:
  assumes "r \<in> set (clean to_datetime raws)"
  shows "reference r \<noteq> None" "reference r \<noteq> Some []" "created_at r \<noteq> None"
  using assms unfolding clean_def drop_invalid_filter by simp_all

lemma set_clean: "set (clean to_datetime raws) \<subseteq> set (clean_columns to_datetime raws)"
  unfolding clean_def drop_invalid_filter by auto

lemma set_refs_brand: "set (refs_brand dff) \<subseteq> set dff"
  unfolding refs_brand_def by (rule set_drop_duplicates)

text \<open>
  C2. A cleaned row whose reference is absent or empty, or whose \<open>created_at\<close> did not
  parse, is dropped where it stands, before the filters and the deduplication: the table
  that goes on is the same with or without it. Every row of the cleaned table that goes on,
  every row of the fact table, under every filter, and every row of the fact table among
  the results of a run has a present, non-empty reference and a parsed timestamp; and the
  aggregates of a run are computed from these rows alone.
\<close>

theorem invalid_rows_discarded:
  "(reference bad = None \<or> reference bad = Some [] \<or> created_at bad = None \<longrightarrow>
      drop_invalid (a @ bad # b) = drop_invalid (a @ b)) \<and>
   clean to_datetime raws = drop_invalid (clean_columns to_datetime raws) \<and>
   (r \<in> set (clean to_datetime raws) \<longrightarrow>
      reference r \<noteq> None \<and> reference r \<noteq> Some [] \<and> created_at r \<noteq> None) \<and>
   (apply_filters re_search cfg (clean to_datetime raws) = Inr dff \<and> r \<in> set dff \<longrightarrow>
      reference r \<noteq> None \<and> reference r \<noteq> Some [] \<and> created_at r \<noteq> None) \<and>
   (apply_filters re_search cfg (clean to_datetime raws) = Inr dff \<and> r \<in> set (refs_brand dff) \<longrightarrow>
      reference r \<noteq> None \<and> reference r \<noteq> Some [] \<and> created_at r \<noteq> None) \<and>
   (apply_filters re_search cfg (clean to_datetime raws) = Inr dff \<and> compute f dff = Inr out \<longrightarrow>
      (r \<in> set (out_refs_brand out) \<longrightarrow>
         reference r \<noteq> None \<and> reference r \<noteq> Some [] \<and> created_at r \<noteq> None) \<and>
      out_refs_brand out = refs_brand dff \<and>
      out_cliente_jogo out = cliente_jogo dff \<and>
      horarios f (out_refs_brand out) = Inr (out_horarios out) \<and>
      out_jogos out = jogos (out_refs_brand out) \<and>
      out_top_jogos_geral out = top_jogos_geral (jogos (out_refs_brand out)) \<and>
      out_total_rollbacks out = total_rollbacks (out_refs_brand out))"
proof -
  let ?V = "\<lambda>r. reference r \<noteq> None \<and> reference r \<noteq> Some [] \<and> created_at r \<noteq> None"
  have 1: "drop_invalid (a @ bad # b) = drop_invalid (a @ b)"
    if "reference bad = None \<or> reference bad = Some [] \<or> created_at bad = None"
    using that by (rule drop_invalid_skip)
  have 2: "clean to_datetime raws = drop_invalid (clean_columns to_datetime raws)"
    by (rule clean_def)
  have 3: "?V r" if "r \<in> set (clean to_datetime raws)"
    using clean_rows_valid[OF that] by blast
  have 4: "?V r" if "apply_filters re_search cfg (clean to_datetime raws) = Inr dff" "r \<in> set dff"
    using set_apply_filters[OF that(1)] that(2) 3 by blast
  have 5: "?V r"
    if "apply_filters re_search cfg (clean to_datetime raws) = Inr dff" "r \<in> set (refs_brand dff)"
    using set_refs_brand[of dff] that 4 by blast
  have 6: "(r \<in> set (out_refs_brand out) \<longrightarrow> ?V r) \<and>
      out_refs_brand out = refs_brand dff \<and>
      out_cliente_jogo out = cliente_jogo dff \<and>
      horarios f (out_refs_brand out) = Inr (out_horarios out) \<and>
      out_jogos out = jogos (out_refs_brand out) \<and>
      out_top_jogos_geral out = top_jogos_geral (jogos (out_refs_brand out)) \<and>
      out_total_rollbacks out = total_rollbacks (out_refs_brand out)"
    if "apply_filters re_search cfg (clean to_datetime raws) = Inr dff" "compute f dff = Inr out"
    using compute_Inr[OF that(2)] 5[OF that(1)] by simp
  from 1 2 3 4 5 6 show ?thesis by blast
qed

theorem invalid_rows_discarded_witness:
  "clean (map (\<lambda>c. if c = Text ''2024-03-01T10:15:42Z'' then Some 1709288142000000000 else None))
     [\<lparr>raw_user_id = Text ''12.0'', raw_game_name = Text ''g1'', raw_reference = Text ''refA'',
       raw_created_at = Text ''2024-03-01T10:15:42Z'', raw_brand_name = Text ''7kbet''\<rparr>,
      \<lparr>raw_user_id = Text ''13'', raw_game_name = Text ''g1'', raw_reference = Text ''  '',
       raw_created_at = Text ''2024-03-01T10:15:42Z'', raw_brand_name = Text ''7kbet''\<rparr>,
      \<lparr>raw_user_id = Text ''14'', raw_game_name = Text ''g2'', raw_reference = Text ''refC'',
       raw_created_at = Text ''yesterday'', raw_brand_name = Text ''vera''\<rparr>] =
     [\<lparr>user_id = Some ''12'', game_name = Some ''g1'', reference = Some ''refA'',
       created_at = Some 1709288142000000000, brand_name = ''7K''\<rparr>] \<and>
   drop_invalid
     ([\<lparr>user_id = Some ''12'', game_name = Some ''g1'', reference = Some ''refA'',
       created_at = Some 1709288142000000000, brand_name = ''7K''\<rparr>] @
      \<lparr>user_id = Some ''13'', game_name = Some ''g1'', reference = Some [],
       created_at = Some 1709288142000000000, brand_name = ''7K''\<rparr> #
      [\<lparr>user_id = Some ''14'', game_name = Some ''g2'', reference = Some ''refC'',
       created_at = None, brand_name = ''Vera''\<rparr>]) =
   drop_invalid
     ([\<lparr>user_id = Some ''12'', game_name = Some ''g1'', reference = Some ''refA'',
       created_at = Some 1709288142000000000, brand_name = ''7K''\<rparr>] @
      [\<lparr>user_id = Some ''14'', game_name = Some ''g2'', reference = Some ''refC'',
       created_at = None, brand_name = ''Vera''\<rparr>]) \<and>
   reference
     \<lparr>user_id = Some ''12'', game_name = Some ''g1'', reference = Some ''refA'',
       created_at = Some 1709288142000000000, brand_name = ''7K''\<rparr> \<noteq> None \<and>
   reference
     \<lparr>user_id = Some ''12'', game_name = Some ''g1'', reference = Some ''refA'',
       created_at = Some 1709288142000000000, brand_name = ''7K''\<rparr> \<noteq> Some [] \<and>
   created_at
     \<lparr>user_id = Some ''12'', game_name = Some ''g1'', reference = Some ''refA'',
       created_at = Some 1709288142000000000, brand_name = ''7K''\<rparr> \<noteq> None \<and>
   (\<exists>out. compute Freq_H
       [\<lparr>user_id = Some ''12'', game_name = Some ''g1'', reference = Some ''refA'',
       created_at = Some 1709288142000000000, brand_name = ''7K''\<rparr>] = Inr out \<and>
      out_refs_brand out =
       [\<lparr>user_id = Some ''12'', game_name = Some ''g1'', reference = Some ''refA'',
       created_at = Some 1709288142000000000, brand_name = ''7K''\<rparr>])"
proof -
  let ?td = "(map (\<lambda>c. if c = Text ''2024-03-01T10:15:42Z'' then Some 1709288142000000000 else None))"
  let ?raws = "[\<lparr>raw_user_id = Text ''12.0'', raw_game_name = Text ''g1'', raw_reference = Text ''refA'',
       raw_created_at = Text ''2024-03-01T10:15:42Z'', raw_brand_name = Text ''7kbet''\<rparr>,
      \<lparr>raw_user_id = Text ''13'', raw_game_name = Text ''g1'', raw_reference = Text ''  '',
       raw_created_at = Text ''2024-03-01T10:15:42Z'', raw_brand_name = Text ''7kbet''\<rparr>,
      \<lparr>raw_user_id = Text ''14'', raw_game_name = Text ''g2'', raw_reference = Text ''refC'',
       raw_created_at = Text ''yesterday'', raw_brand_name = Text ''vera''\<rparr>]"
  let ?okc = "\<lparr>user_id = Some ''12'', game_name = Some ''g1'', reference = Some ''refA'',
       created_at = Some 1709288142000000000, brand_name = ''7K''\<rparr>"
  let ?b1 = "\<lparr>user_id = Some ''13'', game_name = Some ''g1'', reference = Some [],
       created_at = Some 1709288142000000000, brand_name = ''7K''\<rparr>"
  let ?b2 = "\<lparr>user_id = Some ''14'', game_name = Some ''g2'', reference = Some ''refC'',
       created_at = None, brand_name = ''Vera''\<rparr>"
  let ?cfg = "\<lparr>f_brand = [], f_user = [], f_game = []\<rparr>"
  let ?e = "(\<lambda>p. None)"
  have c: "clean ?td ?raws = [?okc]" by code_simp
  have "\<forall>r\<in>set [?okc]. \<forall>t. created_at r = Some t \<longrightarrow> (\<exists>b. floor_ts Freq_H t = Inr b)"
    by (simp add: floor_ts_Inr_iff freq_ns_def)
  from compute_total[OF this] obtain out where o: "compute Freq_H [?okc] = Inr out" by blast
  note t = invalid_rows_discarded[of ?b1 "[?okc]" "[?b2]" ?td ?raws ?okc ?e ?cfg "[?okc]" Freq_H out]
  have h1: "reference ?b1 = None \<or> reference ?b1 = Some [] \<or> created_at ?b1 = None" by simp
  from t h1 have s: "drop_invalid ([?okc] @ ?b1 # [?b2]) = drop_invalid ([?okc] @ [?b2])"
    by blast
  have m: "?okc \<in> set (clean ?td ?raws)" unfolding c by simp
  from t m have v: "reference ?okc \<noteq> None \<and> reference ?okc \<noteq> Some [] \<and> created_at ?okc \<noteq> None"
    by blast
  have f: "apply_filters ?e ?cfg (clean ?td ?raws) = Inr [?okc]"
    unfolding c by (rule apply_filters_none)
  have rb: "refs_brand [?okc] = [?okc]" by code_simp
  from t f o have "out_refs_brand out = refs_brand [?okc]" by blast
  with rb have ob: "out_refs_brand out = [?okc]" by (simp only:)
  then have mo: "?okc \<in> set (out_refs_brand out)" by simp
  from t f o mo have "reference ?okc \<noteq> None \<and> reference ?okc \<noteq> Some [] \<and> created_at ?okc \<noteq> None"
    by blast
  from c s v o ob show ?thesis by blast
qed



section \<open>Game counts\<close>

lemma top_jogos_geral_set:
  "(g, t) \<in> set (top_jogos_geral jg) \<longleftrightarrow>
   (\<exists>b n. ((b, g), n) \<in> set jg) \<and>
   t = sum_list (map snd (filter (\<lambda>((b', g'), n'). g' = g) jg))"
proof -
  define key :: "(string \<times> string) \<times> nat \<Rightarrow> string option"
    where "key = (\<lambda>((b, gn), n). Some gn)"
  have k: "key ((b, gn), n) = Some gn" for b gn n
    by (simp add: key_def)
  have f: "filter (\<lambda>r. key r = Some g) jg = filter (\<lambda>((b', g'), n'). g' = g) jg"
    by (rule filter_cong) (auto simp: k)
  have e: "(\<exists>r\<in>set jg. key r = Some g) \<longleftrightarrow> (\<exists>b n. ((b, g), n) \<in> set jg)"
  proof
    assume "\<exists>r\<in>set jg. key r = Some g"
    then obtain r where r: "r \<in> set jg" "key r = Some g" by blast
    obtain b gn n where "r = ((b, gn), n)" by (metis surj_pair)
    with r k[of b gn n] show "\<exists>b n. ((b, g), n) \<in> set jg" by auto
  next
    assume "\<exists>b n. ((b, g), n) \<in> set jg"
    then obtain b n where "((b, g), n) \<in> set jg" by blast
    with k[of b g n] show "\<exists>r\<in>set jg. key r = Some g" by blast
  qed
  have "top_jogos_geral jg =
        sort_values_desc snd (map (\<lambda>(k, grp). (k, sum_list (map snd grp))) (groupby key jg))"
    by (simp add: top_jogos_geral_def key_def)
  then show ?thesis
    using agg_table_set[of g t snd "\<lambda>grp. sum_list (map snd grp)" key jg]
    by (simp only: f e)
qed

lemma top_jogos_geral_distinct: "distinct (map fst (top_jogos_geral jg))"
  unfolding top_jogos_geral_def Let_def by (rule agg_table_distinct)

text \<open>
  C6. For every game of the per-game-by-brand table, the per-game table has a row for
  that game, its only row for that game, and the count in it is the sum of the game's
  counts over the rows of the per-game-by-brand table, one row per brand: for the two
  tables of any fact table, and for the two tables among the results of a run.
\<close>

theorem game_counts_consistent:
  "(((b, g), n) \<in> set (jogos facts) \<longrightarrow>
      (g, sum_list (map snd (filter (\<lambda>((b', g'), n'). g' = g) (jogos facts))))
        \<in> set (top_jogos_geral (jogos facts))) \<and>
   ((g, t) \<in> set (top_jogos_geral (jogos facts)) \<longrightarrow>
      t = sum_list (map snd (filter (\<lambda>((b', g'), n'). g' = g) (jogos facts)))) \<and>
   distinct (map fst (top_jogos_geral (jogos facts))) \<and>
   distinct (map fst (jogos facts)) \<and>
   (compute f dff = Inr out \<longrightarrow>
      (((b, g), n) \<in> set (out_jogos out) \<longrightarrow>
         (g, sum_list (map snd (filter (\<lambda>((b', g'), n'). g' = g) (out_jogos out))))
           \<in> set (out_top_jogos_geral out)) \<and>
      ((g, t) \<in> set (out_top_jogos_geral out) \<longrightarrow>
         t = sum_list (map snd (filter (\<lambda>((b', g'), n'). g' = g) (out_jogos out)))) \<and>
      distinct (map fst (out_top_jogos_geral out)) \<and>
      distinct (map fst (out_jogos out)))"
proof -
  have d: "distinct (map fst (jogos fs))" for fs
    unfolding jogos_def Let_def by (rule agg_table_distinct)
  have a: "(((b, g), n) \<in> set (jogos fs) \<longrightarrow>
      (g, sum_list (map snd (filter (\<lambda>((b', g'), n'). g' = g) (jogos fs))))
        \<in> set (top_jogos_geral (jogos fs))) \<and>
   ((g, t) \<in> set (top_jogos_geral (jogos fs)) \<longrightarrow>
      t = sum_list (map snd (filter (\<lambda>((b', g'), n'). g' = g) (jogos fs)))) \<and>
   distinct (map fst (top_jogos_geral (jogos fs))) \<and>
   distinct (map fst (jogos fs))" for fs
    using top_jogos_geral_set[of g _ "jogos fs"] top_jogos_geral_distinct[of "jogos fs"] d[of fs]
    by blast
  have o: "out_jogos out = jogos (refs_brand dff) \<and>
      out_top_jogos_geral out = top_jogos_geral (jogos (refs_brand dff))"
    if "compute f dff = Inr out"
    using compute_Inr[OF that] by simp
  from a[of facts] a[of "refs_brand dff"] o show ?thesis by presburger
qed

theorem game_counts_consistent_witness:
  "jogos
     [\<lparr>user_id = Some ''u1'', game_name = Some ''g1'', reference = Some ''refA'',
       created_at = Some 10, brand_name = ''7K''\<rparr>,
      \<lparr>user_id = Some ''u2'', game_name = Some ''g1'', reference = Some ''refB'',
       created_at = Some 20, brand_name = ''7K''\<rparr>,
      \<lparr>user_id = Some ''u3'', game_name = Some ''g1'', reference = Some ''refA'',
       created_at = Some 30, brand_name = ''Cassino''\<rparr>,
      \<lparr>user_id = Some ''u1'', game_name = Some ''g2'', reference = Some ''refC'',
       created_at = Some 40, brand_name = ''Vera''\<rparr>] =
     [((''7K'', ''g1''), 2), ((''Cassino'', ''g1''), 1), ((''Vera'', ''g2''), 1)] \<and>
   (''g1'', 3) \<in> set (top_jogos_geral (jogos
     [\<lparr>user_id = Some ''u1'', game_name = Some ''g1'', reference = Some ''refA'',
       created_at = Some 10, brand_name = ''7K''\<rparr>,
      \<lparr>user_id = Some ''u2'', game_name = Some ''g1'', reference = Some ''refB'',
       created_at = Some 20, brand_name = ''7K''\<rparr>,
      \<lparr>user_id = Some ''u3'', game_name = Some ''g1'', reference = Some ''refA'',
       created_at = Some 30, brand_name = ''Cassino''\<rparr>,
      \<lparr>user_id = Some ''u1'', game_name = Some ''g2'', reference = Some ''refC'',
       created_at = Some 40, brand_name = ''Vera''\<rparr>])) \<and>
   (3::nat) = sum_list (map snd (filter (\<lambda>((b', g'), n'). g' = ''g1'') (jogos
     [\<lparr>user_id = Some ''u1'', game_name = Some ''g1'', reference = Some ''refA'',
       created_at = Some 10, brand_name = ''7K''\<rparr>,
      \<lparr>user_id = Some ''u2'', game_name = Some ''g1'', reference = Some ''refB'',
       created_at = Some 20, brand_name = ''7K''\<rparr>,
      \<lparr>user_id = Some ''u3'', game_name = Some ''g1'', reference = Some ''refA'',
       created_at = Some 30, brand_name = ''Cassino''\<rparr>,
      \<lparr>user_id = Some ''u1'', game_name = Some ''g2'', reference = Some ''refC'',
       created_at = Some 40, brand_name = ''Vera''\<rparr>]))) \<and>
   (\<exists>out. compute Freq_H
     [\<lparr>user_id = Some ''u1'', game_name = Some ''g1'', reference = Some ''refA'',
       created_at = Some 10, brand_name = ''7K''\<rparr>,
      \<lparr>user_id = Some ''u2'', game_name = Some ''g1'', reference = Some ''refA'',
       created_at = Some 20, brand_name = ''7K''\<rparr>,
      \<lparr>user_id = Some ''u2'', game_name = Some ''g1'', reference = Some ''refB'',
       created_at = Some 20, brand_name = ''7K''\<rparr>,
      \<lparr>user_id = Some ''u3'', game_name = Some ''g1'', reference = Some ''refA'',
       created_at = Some 30, brand_name = ''Cassino''\<rparr>,
      \<lparr>user_id = Some ''u1'', game_name = Some ''g2'', reference = Some ''refC'',
       created_at = Some 40, brand_name = ''Vera''\<rparr>] = Inr out \<and>
     ((''7K'', ''g1''), 2) \<in> set (out_jogos out) \<and>
     (''g1'', 3) \<in> set (out_top_jogos_geral out) \<and>
     (3::nat) = sum_list (map snd (filter (\<lambda>((b', g'), n'). g' = ''g1'') (out_jogos out))))"
proof -
  let ?dff = "[\<lparr>user_id = Some ''u1'', game_name = Some ''g1'', reference = Some ''refA'',
       created_at = Some 10, brand_name = ''7K''\<rparr>,
      \<lparr>user_id = Some ''u2'', game_name = Some ''g1'', reference = Some ''refA'',
       created_at = Some 20, brand_name = ''7K''\<rparr>,
      \<lparr>user_id = Some ''u2'', game_name = Some ''g1'', reference = Some ''refB'',
       created_at = Some 20, brand_name = ''7K''\<rparr>,
      \<lparr>user_id = Some ''u3'', game_name = Some ''g1'', reference = Some ''refA'',
       created_at = Some 30, brand_name = ''Cassino''\<rparr>,
      \<lparr>user_id = Some ''u1'', game_name = Some ''g2'', reference = Some ''refC'',
       created_at = Some 40, brand_name = ''Vera''\<rparr>]"
  let ?facts = "[\<lparr>user_id = Some ''u1'', game_name = Some ''g1'', reference = Some ''refA'',
       created_at = Some 10, brand_name = ''7K''\<rparr>,
      \<lparr>user_id = Some ''u2'', game_name = Some ''g1'', reference = Some ''refB'',
       created_at = Some 20, brand_name = ''7K''\<rparr>,
      \<lparr>user_id = Some ''u3'', game_name = Some ''g1'', reference = Some ''refA'',
       created_at = Some 30, brand_name = ''Cassino''\<rparr>,
      \<lparr>user_id = Some ''u1'', game_name = Some ''g2'', reference = Some ''refC'',
       created_at = Some 40, brand_name = ''Vera''\<rparr>]"
  have j: "jogos ?facts =
      [((''7K'', ''g1''), 2), ((''Cassino'', ''g1''), 1), ((''Vera'', ''g2''), 1)]"
    by code_simp
  have rb: "refs_brand ?dff = ?facts" by code_simp
  have "\<forall>r\<in>set ?dff. \<forall>t. created_at r = Some t \<longrightarrow> (\<exists>b. floor_ts Freq_H t = Inr b)"
    by (simp add: floor_ts_Inr_iff freq_ns_def)
  from compute_total[OF this] obtain out where c: "compute Freq_H ?dff = Inr out" by blast
  note t = game_counts_consistent[of "''7K''" "''g1''" 2 ?facts 3 Freq_H ?dff out]
  have m: "((''7K'', ''g1''), 2) \<in> set (jogos ?facts)" unfolding j by simp
  have s3: "sum_list (map snd (filter (\<lambda>((b', g'), n'). g' = ''g1'') (jogos ?facts))) = (3::nat)"
    unfolding j by simp
  from t m have "(''g1'', sum_list (map snd (filter (\<lambda>((b', g'), n'). g' = ''g1'') (jogos ?facts))))
        \<in> set (top_jogos_geral (jogos ?facts))"
    by blast
  then have tm: "(''g1'', 3) \<in> set (top_jogos_geral (jogos ?facts))"
    unfolding s3 .
  from t tm have s: "(3::nat) = sum_list (map snd (filter (\<lambda>((b', g'), n'). g' = ''g1'')
      (jogos ?facts)))"
    by blast
  have oj: "out_jogos out = jogos ?facts"
    using compute_Inr(4)[OF c] unfolding rb .
  have mo: "((''7K'', ''g1''), 2) \<in> set (out_jogos out)" unfolding oj by (rule m)
  have so: "sum_list (map snd (filter (\<lambda>((b', g'), n'). g' = ''g1'') (out_jogos out))) = (3::nat)"
    unfolding oj by (rule s3)
  from t c mo have "(''g1'', sum_list (map snd (filter (\<lambda>((b', g'), n'). g' = ''g1'') (out_jogos out))))
        \<in> set (out_top_jogos_geral out)"
    by blast
  then have to: "(''g1'', 3) \<in> set (out_top_jogos_geral out)"
    unfolding so .
  from t c to have s': "(3::nat) = sum_list (map snd (filter (\<lambda>((b', g'), n'). g' = ''g1'')
      (out_jogos out)))"
    by blast
  from j tm s c mo to s' show ?thesis by blast
qed



section \<open>The total of rollbacks\<close>

lemma sum_length_groups:
  assumes "distinct ks" and "key ` set xs \<subseteq> set ks"
  shows "sum_list (map (\<lambda>k. length (filter (\<lambda>r. key r = k) xs)) ks) = length xs"
  using assms
proof (induction ks arbitrary: xs)
  case Nil
  then show ?case by simp
next
  case (Cons k ks)
  let ?rest = "filter (\<lambda>r. key r \<noteq> k) xs"
  have sub: "key ` set ?rest \<subseteq> set ks" using Cons.prems(2) by auto
  have d: "distinct ks" and nk: "k \<notin> set ks" using Cons.prems(1) by simp_all
  have "filter (\<lambda>r. key r = k') xs = filter (\<lambda>r. key r = k') ?rest" if "k' \<in> set ks" for k'
  proof -
    from that nk have "k' \<noteq> k" by blast
    then show ?thesis by (auto intro!: filter_cong)
  qed
  then have m: "map (\<lambda>k'. length (filter (\<lambda>r. key r = k') xs)) ks =
             map (\<lambda>k'. length (filter (\<lambda>r. key r = k') ?rest)) ks"
    by (intro map_cong) simp_all
  have "sum_list (map (\<lambda>k'. length (filter (\<lambda>r. key r = k') xs)) ks) = length ?rest"
    unfolding m by (rule Cons.IH[OF d sub])
  moreover have "length (filter (\<lambda>r. key r = k) xs) + length ?rest = length xs"
    by (rule sum_length_filter_compl)
  ultimately show ?case by simp
qed

lemma map_filter_present:
  assumes "\<forall>x\<in>set xs. f x \<noteq> None" and "distinct (map f xs)"
  shows "distinct (List.map_filter f xs)" and "length (List.map_filter f xs) = length xs"
proof -
  have "map Some (List.map_filter f xs) = map f xs"
    using assms(1) by (induction xs) (auto simp: List.map_filter_simps)
  with assms(2) show "distinct (List.map_filter f xs)"
    by (metis distinct_map)
  from \<open>map Some (List.map_filter f xs) = map f xs\<close>
  show "length (List.map_filter f xs) = length xs"
    by (metis length_map)
qed

lemma distinct_within_brand:
  assumes "distinct (map (\<lambda>r. (brand_name r, reference r)) grp)" and "\<forall>r\<in>set grp. brand_name r = b"
  shows "distinct (map reference grp)"
  using assms by (induction grp) (auto simp: image_iff)

lemma nunique_group:
  assumes "distinct (map (\<lambda>r. (brand_name r, reference r)) facts)"
    and "\<forall>r\<in>set facts. reference r \<noteq> None"
  shows "nunique reference (filter (\<lambda>r. brand_name r = b) facts) =
         length (filter (\<lambda>r. brand_name r = b) facts)"
proof -
  let ?grp = "filter (\<lambda>r. brand_name r = b) facts"
  have "distinct (map (\<lambda>r. (brand_name r, reference r)) ?grp)"
    using assms(1) by (rule distinct_map_filter)
  then have "distinct (map reference ?grp)"
    by (rule distinct_within_brand[where b = b]) simp
  moreover have "\<forall>r\<in>set ?grp. reference r \<noteq> None" using assms(2) by simp
  ultimately have "distinct (List.map_filter reference ?grp)"
    and "length (List.map_filter reference ?grp) = length ?grp"
    using map_filter_present[of ?grp reference] by blast+
  then show ?thesis by (simp add: nunique_def distinct_remdups_id)
qed

lemma total_rollbacks_length:
  assumes "distinct (map (\<lambda>r. (brand_name r, reference r)) facts)"
    and "\<forall>r\<in>set facts. reference r \<noteq> None"
  shows "total_rollbacks facts = length facts"
proof -
  let ?ks = "sort (remdups (List.map_filter (\<lambda>r. Some (brand_name r)) facts))"
  have ks: "distinct ?ks" "brand_name ` set facts \<subseteq> set ?ks"
    by (auto simp: set_map_filter_key)
  have "total_rollbacks facts =
        sum_list (map (\<lambda>k. nunique reference (filter (\<lambda>r. brand_name r = k) facts)) ?ks)"
    by (simp add: total_rollbacks_def groupby_def comp_def)
  also have "\<dots> = sum_list (map (\<lambda>k. length (filter (\<lambda>r. brand_name r = k) facts)) ?ks)"
    by (simp only: nunique_group[OF assms])
  also have "\<dots> = length facts"
    using ks by (rule sum_length_groups)
  finally show ?thesis .
qed



lemma refs_brand_total_rollbacks:
  assumes "\<forall>r\<in>set dff. reference r \<noteq> None"
  shows "total_rollbacks (refs_brand dff) = length (refs_brand dff)"
proof -
  have "distinct (map (\<lambda>r. (brand_name r, reference r)) (refs_brand dff))"
    unfolding refs_brand_def by (rule distinct_drop_duplicates)
  moreover have "\<forall>r\<in>set (refs_brand dff). reference r \<noteq> None"
    using assms set_refs_brand[of dff] by blast
  ultimately show ?thesis
    by (rule total_rollbacks_length)
qed

lemma filtered_clean_present:
  assumes "apply_filters re_search cfg (clean to_datetime raws) = Inr dff"
  shows "\<forall>r\<in>set dff. reference r \<noteq> None"
  using set_apply_filters[OF assms] clean_rows_valid(1)[of _ to_datetime raws]
  by blast

lemma run_Shown:
  assumes "run to_datetime re_search cfg f tbl = Inr (Shown out)"
  shows "\<exists>raws dff. ingest tbl = Inr raws \<and>
           apply_filters re_search cfg (clean to_datetime raws) = Inr dff \<and>
           compute f dff = Inr out"
  using assms by (auto simp: run_def Let_def split: sum.splits if_splits)

text \<open>
  C10. The total-rollbacks KPI, the sum over the brands of the number of distinct
  references of the brand in the fact table, is the number of rows of the fact table: for
  the rows the cleaning and the filters let through, for every run that shows results, and
  for every table whose rows all have a reference.
\<close>

theorem total_rollbacks_counts_fact_rows:
  "(apply_filters re_search cfg (clean to_datetime raws) = Inr dff \<longrightarrow>
      total_rollbacks (refs_brand dff) = length (refs_brand dff) \<and>
      (compute f dff = Inr out \<longrightarrow> out_total_rollbacks out = length (out_refs_brand out))) \<and>
   (run to_datetime re_search cfg f tbl = Inr (Shown out) \<longrightarrow>
      out_total_rollbacks out = length (out_refs_brand out)) \<and>
   ((\<forall>r\<in>set df. reference r \<noteq> None) \<longrightarrow>
      total_rollbacks (refs_brand df) = length (refs_brand df))"
proof -
  have a: "total_rollbacks (refs_brand d) = length (refs_brand d) \<and>
      (compute f d = Inr out \<longrightarrow> out_total_rollbacks out = length (out_refs_brand out))"
    if "apply_filters re_search cfg (clean to_datetime rs) = Inr d" for rs d
  proof -
    from refs_brand_total_rollbacks[OF filtered_clean_present[OF that]]
    have t: "total_rollbacks (refs_brand d) = length (refs_brand d)" .
    have "out_total_rollbacks out = length (out_refs_brand out)" if "compute f d = Inr out"
      using compute_Inr(1,6)[OF that] t by simp
    with t show ?thesis by blast
  qed
  have b: "out_total_rollbacks out = length (out_refs_brand out)"
    if "run to_datetime re_search cfg f tbl = Inr (Shown out)"
  proof -
    from run_Shown[OF that] obtain rs d
      where "apply_filters re_search cfg (clean to_datetime rs) = Inr d" "compute f d = Inr out"
      by blast
    with a[of rs d] show ?thesis by blast
  qed
  have c: "total_rollbacks (refs_brand df) = length (refs_brand df)"
    if "\<forall>r\<in>set df. reference r \<noteq> None"
    using that by (rule refs_brand_total_rollbacks)
  from a[of raws dff] b c show ?thesis by blast
qed

theorem total_rollbacks_counts_fact_rows_witness:
  "length (refs_brand
     [\<lparr>user_id = Some ''u1'', game_name = Some ''g1'', reference = Some ''refA'',
       created_at = Some 10, brand_name = ''7K''\<rparr>,
      \<lparr>user_id = Some ''u2'', game_name = Some ''g1'', reference = Some ''refA'',
       created_at = Some 20, brand_name = ''7K''\<rparr>,
      \<lparr>user_id = Some ''u2'', game_name = Some ''g1'', reference = Some ''refB'',
       created_at = Some 20, brand_name = ''7K''\<rparr>,
      \<lparr>user_id = Some ''u3'', game_name = Some ''g1'', reference = Some ''refA'',
       created_at = Some 30, brand_name = ''Cassino''\<rparr>,
      \<lparr>user_id = Some ''u1'', game_name = Some ''g2'', reference = Some ''refC'',
       created_at = Some 40, brand_name = ''Vera''\<rparr>]) = 4 \<and>
   total_rollbacks (refs_brand
     [\<lparr>user_id = Some ''u1'', game_name = Some ''g1'', reference = Some ''refA'',
       created_at = Some 10, brand_name = ''7K''\<rparr>,
      \<lparr>user_id = Some ''u2'', game_name = Some ''g1'', reference = Some ''refA'',
       created_at = Some 20, brand_name = ''7K''\<rparr>,
      \<lparr>user_id = Some ''u2'', game_name = Some ''g1'', reference = Some ''refB'',
       created_at = Some 20, brand_name = ''7K''\<rparr>,
      \<lparr>user_id = Some ''u3'', game_name = Some ''g1'', reference = Some ''refA'',
       created_at = Some 30, brand_name = ''Cassino''\<rparr>,
      \<lparr>user_id = Some ''u1'', game_name = Some ''g2'', reference = Some ''refC'',
       created_at = Some 40, brand_name = ''Vera''\<rparr>]) = 4 \<and>
   (\<exists>out. run (map (\<lambda>c. if c = Text ''2024-03-01T10:15:42Z'' then Some 1709288142000000000 else None)) (\<lambda>p. None) \<lparr>f_brand = [], f_user = [], f_game = []\<rparr> Freq_H
       \<lparr>columns = [''user_id'', ''game_name'', ''reference'', ''created_at'', ''brand_name''],
       cells = [[Text ''12.0'', Text ''g1'', Text ''refA'', Text ''2024-03-01T10:15:42Z'', Text ''7kbet''],
                [Text ''12.0'', Text ''g1'', Text ''refA'', Text ''2024-03-01T10:15:42Z'', Text ''7K'']]\<rparr> = Inr (Shown out) \<and>
      out_total_rollbacks out = 1 \<and> length (out_refs_brand out) = 1)"
proof -
  let ?df = "[\<lparr>user_id = Some ''u1'', game_name = Some ''g1'', reference = Some ''refA'',
       created_at = Some 10, brand_name = ''7K''\<rparr>,
      \<lparr>user_id = Some ''u2'', game_name = Some ''g1'', reference = Some ''refA'',
       created_at = Some 20, brand_name = ''7K''\<rparr>,
      \<lparr>user_id = Some ''u2'', game_name = Some ''g1'', reference = Some ''refB'',
       created_at = Some 20, brand_name = ''7K''\<rparr>,
      \<lparr>user_id = Some ''u3'', game_name = Some ''g1'', reference = Some ''refA'',
       created_at = Some 30, brand_name = ''Cassino''\<rparr>,
      \<lparr>user_id = Some ''u1'', game_name = Some ''g2'', reference = Some ''refC'',
       created_at = Some 40, brand_name = ''Vera''\<rparr>]"
  let ?td = "(map (\<lambda>c. if c = Text ''2024-03-01T10:15:42Z'' then Some 1709288142000000000 else None))"
  let ?e = "(\<lambda>p. None)"
  let ?cfg = "\<lparr>f_brand = [], f_user = [], f_game = []\<rparr>"
  let ?tbl = "\<lparr>columns = [''user_id'', ''game_name'', ''reference'', ''created_at'', ''brand_name''],
       cells = [[Text ''12.0'', Text ''g1'', Text ''refA'', Text ''2024-03-01T10:15:42Z'', Text ''7kbet''],
                [Text ''12.0'', Text ''g1'', Text ''refA'', Text ''2024-03-01T10:15:42Z'', Text ''7K'']]\<rparr>"
  let ?raws = "[\<lparr>raw_user_id = Text ''12.0'', raw_game_name = Text ''g1'', raw_reference = Text ''refA'',
       raw_created_at = Text ''2024-03-01T10:15:42Z'', raw_brand_name = Text ''7kbet''\<rparr>,
      \<lparr>raw_user_id = Text ''12.0'', raw_game_name = Text ''g1'', raw_reference = Text ''refA'',
       raw_created_at = Text ''2024-03-01T10:15:42Z'', raw_brand_name = Text ''7K''\<rparr>]"
  let ?okc = "\<lparr>user_id = Some ''12'', game_name = Some ''g1'', reference = Some ''refA'',
       created_at = Some 1709288142000000000, brand_name = ''7K''\<rparr>"
  have i: "ingest ?tbl = Inr ?raws" by code_simp
  have cl: "clean ?td ?raws = [?okc, ?okc]" by code_simp
  have af2: "apply_filters ?e ?cfg [?okc, ?okc] = Inr [?okc, ?okc]"
    by (rule apply_filters_none)
  have af: "apply_filters ?e ?cfg (clean ?td ?raws) = Inr [?okc, ?okc]"
    unfolding cl by (rule af2)
  have "\<forall>r\<in>set [?okc, ?okc]. \<forall>t. created_at r = Some t \<longrightarrow> (\<exists>b. floor_ts Freq_H t = Inr b)"
    by (simp add: floor_ts_Inr_iff freq_ns_def)
  from compute_total[OF this] obtain out where c: "compute Freq_H [?okc, ?okc] = Inr out" by blast
  have r: "run ?td ?e ?cfg Freq_H ?tbl = Inr (Shown out)"
    unfolding run_def i sum.case Let_def cl af2 c by simp
  note t = total_rollbacks_counts_fact_rows[of ?e ?cfg ?td ?raws "[?okc, ?okc]" Freq_H out ?tbl ?df]
  have p: "\<forall>r\<in>set ?df. reference r \<noteq> None" by simp
  have l: "length (refs_brand ?df) = 4" by code_simp
  from t p have "total_rollbacks (refs_brand ?df) = length (refs_brand ?df)" by blast
  with l have k: "total_rollbacks (refs_brand ?df) = 4" by (simp only:)
  from t r have o1: "out_total_rollbacks out = length (out_refs_brand out)" by blast
  from t af c have o2: "out_total_rollbacks out = length (out_refs_brand out)" by blast
  have "refs_brand [?okc, ?okc] = [?okc]" by code_simp
  with compute_Inr(1)[OF c] have "length (out_refs_brand out) = 1" by simp
  with o1 have "out_total_rollbacks out = 1 \<and> length (out_refs_brand out) = 1" by simp
  with l k r show ?thesis by blast
qed



section \<open>The calendar\<close>

lemma div_le_add:
  fixes a b k :: int
  assumes "a \<le> b" and "0 < k"
  shows "b div k \<le> a div k + (b - a)"
proof -
  have "(b - a) * 1 \<le> (b - a) * k"
    using assms by (intro mult_left_mono) simp_all
  then have "b \<le> a + (b - a) * k" by simp
  then have "b div k \<le> (a + (b - a) * k) div k"
    using assms(2) by (intro zdiv_mono1) simp_all
  also have "\<dots> = a div k + (b - a)"
    using assms(2) by simp
  finally show ?thesis .
qed

lemma div_cent:
  fixes a b :: int
  assumes "a \<le> b" "0 \<le> a" "b \<le> 146096"
  shows "a div 36524 - a div 146096 \<le> b div 36524 - b div 146096"
proof (cases "b = 146096")
  case True
  show ?thesis
  proof (cases "a = b")
    case True
    then show ?thesis by simp
  next
    case False
    with assms \<open>b = 146096\<close> have "a \<le> 146095" by simp
    then have "a div 36524 \<le> 146095 div 36524" by (intro zdiv_mono1) simp_all
    moreover have "a div 146096 = 0" using assms(2) \<open>a \<le> 146095\<close> by simp
    ultimately show ?thesis using True by simp
  qed
next
  case False
  with assms have "b < 146096" by simp
  with assms have "a div 146096 = 0" "b div 146096 = 0" by simp_all
  moreover have "a div 36524 \<le> b div 36524" using assms(1) by (intro zdiv_mono1) simp_all
  ultimately show ?thesis by simp
qed

lemma yoe_of_mono:
  assumes "a \<le> b" "0 \<le> a" "b \<le> 146096"
  shows "yoe_of a \<le> yoe_of b"
proof -
  have "b div 1460 \<le> a div 1460 + (b - a)" using assms(1) by (intro div_le_add) simp_all
  with div_cent[OF assms]
  have "a - a div 1460 + a div 36524 - a div 146096 \<le> b - b div 1460 + b div 36524 - b div 146096"
    by linarith
  then show ?thesis unfolding yoe_of_def by (intro zdiv_mono1) simp_all
qed


lemma year_start_step: "year_start (y + 1) - 1 \<le> year_start y + 365"
proof -
  have a: "(y + 1) div 4 \<le> y div 4 + 1"
    using div_le_add[of y "y + 1" 4] by simp
  have b: "y div 100 \<le> (y + 1) div 100" by (intro zdiv_mono1) simp_all
  have g: "A \<le> B + 1 \<Longrightarrow> C \<le> D \<Longrightarrow>
      365 * (y + 1) + A - D - 1 \<le> 365 * y + B - C + 365" for A B C D :: int
    by simp
  show ?thesis unfolding year_start_def using a b by (rule g)
qed

lemma year_start_bounds:
  assumes "0 \<le> y" "y \<le> 399"
  shows "0 \<le> year_start y" and "year_start y \<le> 145731"
proof -
  have a: "y div 4 \<le> 399 div 4" using assms(2) by (intro zdiv_mono1) simp_all
  have b: "0 \<le> y div 4" using assms(1) by simp
  have c: "0 \<le> y div 100" using assms(1) by simp
  have d: "y div 100 \<le> y div 1" using assms(1) by (intro zdiv_mono2) simp_all
  from a b c d assms show "0 \<le> year_start y" and "year_start y \<le> 145731"
    unfolding year_start_def by simp_all
qed

lemma ends: "\<forall>y\<in>set [0..399]. yoe_of (year_start y) = y \<and>
   yoe_of (if y = 399 then 146096 else year_start (y + 1) - 1) = y"
  by code_simp

lemma year_of_day:
  assumes "0 \<le> doe" "doe \<le> 146096"
  shows "0 \<le> yoe_of doe" "yoe_of doe \<le> 399"
    "year_start (yoe_of doe) \<le> doe" "doe \<le> year_start (yoe_of doe) + 365"
proof -
  let ?y = "yoe_of doe"
  have e0: "yoe_of 0 = 0" "yoe_of 146096 = 399" by (simp_all add: yoe_of_def)
  from yoe_of_mono[of 0 doe] assms e0 show y0: "0 \<le> ?y" by simp
  from yoe_of_mono[of doe 146096] assms e0 show y1: "?y \<le> 399" by simp
  have at: "yoe_of (year_start k) = k \<and>
      yoe_of (if k = 399 then 146096 else year_start (k + 1) - 1) = k" if "0 \<le> k" "k \<le> 399" for k
    using ends that by simp
  show lo: "year_start ?y \<le> doe"
  proof (rule ccontr)
    assume "\<not> year_start ?y \<le> doe"
    then have lt: "doe \<le> year_start ?y - 1" by simp
    have "year_start 0 = 0" by (simp add: year_start_def)
    with lt assms(1) have "?y \<noteq> 0" by auto
    with y0 have k: "0 \<le> ?y - 1" "?y - 1 \<le> 399" "?y - 1 \<noteq> 399" using y1 by simp_all
    from at[OF k(1,2)] k(3) have "yoe_of (year_start ?y - 1) = ?y - 1" by simp
    moreover have "year_start ?y - 1 \<le> 146096"
      using year_start_bounds(2)[OF y0 y1] by simp
    ultimately have "?y \<le> ?y - 1"
      using yoe_of_mono[OF lt assms(1)] by simp
    then show False by simp
  qed
  show "doe \<le> year_start ?y + 365"
  proof (cases "?y = 399")
    case True
    have "year_start 399 = 145731" by (simp add: year_start_def)
    with True assms(2) show ?thesis by simp
  next
    case False
    with y1 have k: "0 \<le> ?y + 1" "?y + 1 \<le> 399" using y0 by simp_all
    have "doe \<le> year_start (?y + 1) - 1"
    proof (rule ccontr)
      assume "\<not> doe \<le> year_start (?y + 1) - 1"
      then have ge: "year_start (?y + 1) \<le> doe" by simp
      from at[OF k] have "yoe_of (year_start (?y + 1)) = ?y + 1" by simp
      moreover have "0 \<le> year_start (?y + 1)" using year_start_bounds(1)[OF k] .
      ultimately have "?y + 1 \<le> ?y"
        using yoe_of_mono[OF ge _ assms(2)] by simp
      then show False by simp
    qed
    with year_start_step[of ?y] show ?thesis by simp
  qed
qed


lemma month_day:
  "\<forall>doy\<in>set [0..365].
     0 \<le> (5 * doy + 2) div 153 \<and> (5 * doy + 2) div 153 \<le> 11 \<and>
     1 \<le> doy - (153 * ((5 * doy + 2) div 153) + 2) div 5 + 1 \<and>
     doy - (153 * ((5 * doy + 2) div 153) + 2) div 5 + 1 \<le> 31"
  by code_simp




lemma civil_from_days_correct:
  assumes "civil_from_days z = (y, m, d)"
  shows "1 \<le> m" "m \<le> 12" "1 \<le> d" "d \<le> 31" "days_from_civil y m d = z"
proof -
  define era where "era = (z + 719468) div 146097"
  define doe where "doe = (z + 719468) mod 146097"
  define yoe where "yoe = yoe_of doe"
  define doy where "doy = doe - year_start yoe"
  define mp where "mp = (5 * doy + 2) div 153"
  have "z + 719468 = era * 146097 + doe"
    unfolding era_def doe_def by simp
  then have z: "z = era * 146097 + doe - 719468" by simp
  have doe: "0 \<le> doe" "doe \<le> 146096" unfolding doe_def by simp_all
  note yd = year_of_day[OF doe, folded yoe_def]
  have doy: "0 \<le> doy" "doy \<le> 365" using yd(3,4) unfolding doy_def by simp_all
  then have "doy \<in> set [0..365]" by simp
  with month_day have md: "0 \<le> mp" "mp \<le> 11"
    "1 \<le> doy - (153 * mp + 2) div 5 + 1" "doy - (153 * mp + 2) div 5 + 1 \<le> 31"
    unfolding mp_def by blast+
  have c: "civil_from_days z =
      (yoe + era * 400 + (if (if mp < 10 then mp + 3 else mp - 9) \<le> 2 then 1 else 0),
       (if mp < 10 then mp + 3 else mp - 9),
       doy - (153 * mp + 2) div 5 + 1)"
    by (simp only: civil_from_days_def Let_def mp_def doy_def yoe_def yoe_of_def year_start_def
      doe_def era_def)
  from assms[unfolded c]
  have m: "m = (if mp < 10 then mp + 3 else mp - 9)"
    and d: "d = doy - (153 * mp + 2) div 5 + 1"
    and "y = yoe + era * 400 + (if (if mp < 10 then mp + 3 else mp - 9) \<le> 2 then 1 else 0)"
    by blast+
  then have y: "y = yoe + era * 400 + (if m \<le> 2 then 1 else 0)"
    by (simp only:)
  from m md(1,2) show "1 \<le> m" "m \<le> 12" by (simp_all split: if_splits)
  from d md(3,4) show "1 \<le> d" "d \<le> 31" by simp_all
  have mp': "(if m > 2 then m - 3 else m + 9) = mp"
    using m md(1,2) by (simp split: if_splits)
  have y1: "(if m \<le> 2 then y - 1 else y) = yoe + era * 400"
    using y by simp
  have yq: "(yoe + era * 400) div 400 = era" "(yoe + era * 400) mod 400 = yoe"
    using yd(1,2) by simp_all
  have doy': "(153 * mp + 2) div 5 + d - 1 = doy" using d by simp
  have "days_from_civil y m d = era * 146097 + (year_start yoe + doy) - 719468"
    unfolding days_from_civil_def Let_def mp' y1 yq doy' year_start_def
    by simp
  also have "\<dots> = z" using z unfolding doy_def by simp
  finally show "days_from_civil y m d = z" .
qed




section \<open>Time buckets\<close>

lemma floor_ts_bounds:
  assumes "floor_ts f t = Inr b"
  shows "b \<le> t" and "t < b + freq_ns f" and "b mod freq_ns f = 0" and "b mod 60000000000 = 0"
proof -
  from assms have b: "b = t - t mod freq_ns f" by (simp add: floor_ts_Inr_iff)
  have "0 \<le> t mod freq_ns f" "t mod freq_ns f < freq_ns f"
    using freq_ns_pos[of f] by simp_all
  then show "b \<le> t" "t < b + freq_ns f"
    unfolding b by simp_all
  have d: "b = t div freq_ns f * freq_ns f"
    unfolding b by (simp add: minus_mod_eq_div_mult)
  then show "b mod freq_ns f = 0" by simp
  from d have "freq_ns f dvd b" by simp
  with minute_dvd_freq_ns[of f] have "60000000000 dvd b"
    by (rule dvd_trans)
  then show "b mod 60000000000 = 0" by simp
qed

lemma minute_of_instant:
  fixes t :: int
  defines "secs \<equiv> t div 1000000000"
  defines "sod \<equiv> secs mod 86400"
  shows "(secs div 86400 * 86400 + sod div 3600 * 3600 + sod mod 3600 div 60 * 60) * 1000000000 =
         t - t mod 60000000000"
proof -
  have a: "sod mod 3600 mod 60 = secs mod 60"
    unfolding sod_def by (simp add: mod_mod_cancel)
  have "secs = secs div 86400 * 86400 + sod" unfolding sod_def by simp
  also have "sod = sod div 3600 * 3600 + sod mod 3600" by simp
  also have "sod mod 3600 = sod mod 3600 div 60 * 60 + sod mod 3600 mod 60" by simp
  finally have "secs div 86400 * 86400 + sod div 3600 * 3600 + sod mod 3600 div 60 * 60 =
      secs - secs mod 60"
    unfolding a by linarith
  also have "\<dots> = secs div 60 * 60" by (simp add: minus_mod_eq_div_mult)
  also have "secs div 60 = t div 60000000000"
    unfolding secs_def by (simp add: div_mult2_eq[symmetric])
  finally have "(secs div 86400 * 86400 + sod div 3600 * 3600 + sod mod 3600 div 60 * 60) * 1000000000 =
      t div 60000000000 * 60000000000"
    by simp
  then show ?thesis by (simp add: minus_mod_eq_div_mult)
qed

lemma strftime_fields:
  "\<exists>y m d hh mm.
     strftime t = pad2 d @ ''/'' @ pad2 m @ ''/'' @ pad4 y @ '' '' @ pad2 hh @ '':'' @ pad2 mm \<and>
     1 \<le> m \<and> m \<le> 12 \<and> 1 \<le> d \<and> d \<le> 31 \<and> 0 \<le> hh \<and> hh \<le> 23 \<and> 0 \<le> mm \<and> mm \<le> 59 \<and>
     instant_of y m d hh mm 0 = t - t mod 60000000000"
proof -
  define secs where "secs = t div 1000000000"
  define sod where "sod = secs mod 86400"
  obtain y m d where c: "civil_from_days (secs div 86400) = (y, m, d)"
    by (metis prod_cases3)
  note cd = civil_from_days_correct[OF c]
  have s: "strftime t = pad2 d @ ''/'' @ pad2 m @ ''/'' @ pad4 y @ '' '' @
      pad2 (sod div 3600) @ '':'' @ pad2 (sod mod 3600 div 60)"
    using c unfolding strftime_def Let_def secs_def sod_def by simp
  have sod: "0 \<le> sod" "sod < 86400" unfolding sod_def by simp_all
  have hh: "0 \<le> sod div 3600" "sod div 3600 \<le> 23"
  proof -
    show "0 \<le> sod div 3600" using sod(1) by simp
    have "sod div 3600 \<le> 86399 div 3600" using sod(2) by (intro zdiv_mono1) simp_all
    then show "sod div 3600 \<le> 23" by simp
  qed
  have mm: "0 \<le> sod mod 3600 div 60" "sod mod 3600 div 60 \<le> 59"
  proof -
    have r: "0 \<le> sod mod 3600" "sod mod 3600 < 3600" by simp_all
    show "0 \<le> sod mod 3600 div 60" using r(1) by simp
    have "sod mod 3600 div 60 \<le> 3599 div 60" using r(2) by (intro zdiv_mono1) simp_all
    then show "sod mod 3600 div 60 \<le> 59" by simp
  qed
  have "instant_of y m d (sod div 3600) (sod mod 3600 div 60) 0 =
      (secs div 86400 * 86400 + sod div 3600 * 3600 + sod mod 3600 div 60 * 60) * 1000000000"
    unfolding instant_of_def cd(5) by simp
  also have "\<dots> = t - t mod 60000000000"
    unfolding sod_def secs_def by (rule minute_of_instant)
  finally have i: "instant_of y m d (sod div 3600) (sod mod 3600 div 60) 0 = t - t mod 60000000000" .
  from s cd(1-4) hh mm i show ?thesis by blast
qed

lemma length_strftime: "length (strftime t) = 16"
  by (simp add: strftime_def Let_def pad2_def pad4_def split: prod.splits)

lemma strftime_bucket:
  assumes "floor_ts f t = Inr b"
  shows "\<exists>y m d hh mm.
     strftime b = pad2 d @ ''/'' @ pad2 m @ ''/'' @ pad4 y @ '' '' @ pad2 hh @ '':'' @ pad2 mm \<and>
     1 \<le> m \<and> m \<le> 12 \<and> 1 \<le> d \<and> d \<le> 31 \<and> 0 \<le> hh \<and> hh \<le> 23 \<and> 0 \<le> mm \<and> mm \<le> 59 \<and>
     instant_of y m d hh mm 0 = b"
  using strftime_fields[of b] unfolding floor_ts_bounds(4)[OF assms] by simp

lemma zip_floor_column:
  assumes "floor_column f (map created_at facts) = Inr bs"
  shows "zip facts bs =
         map (\<lambda>r. (r, map_option (\<lambda>t. t - t mod freq_ns f) (created_at r))) facts"
proof -
  from assms have "bs = map (map_option (\<lambda>t. t - t mod freq_ns f)) (map created_at facts)"
    unfolding floor_column_Inr_iff by (rule conjunct2)
  then show ?thesis
    by (simp add: zip_map2 zip_same_conv_map comp_def)
qed

lemma horarios_floors:
  assumes "horarios f facts = Inr hs" and "r \<in> set facts" and "created_at r = Some t"
  shows "floor_ts f t = Inr (t - t mod freq_ns f)"
proof -
  from assms(1) obtain bs where "floor_column f (map created_at facts) = Inr bs"
    by (auto simp: horarios_def split: sum.splits)
  then have "\<forall>t. Some t \<in> set (map created_at facts) \<longrightarrow> (\<exists>b. floor_ts f t = Inr b)"
    unfolding floor_column_Inr_iff by (rule conjunct1)
  moreover have "Some t \<in> set (map created_at facts)"
    using assms(2,3) by (metis image_eqI list.set_map)
  ultimately obtain b where "floor_ts f t = Inr b" by blast
  then show ?thesis by (simp add: floor_ts_Inr_iff)
qed

lemma horarios_set:
  assumes "horarios f facts = Inr hs"
  shows "h \<in> set hs \<longleftrightarrow>
   (\<exists>r\<in>set facts. \<exists>t. created_at r = Some t \<and>
      h = \<lparr>h_brand_name = brand_name r, bucket_time = t - t mod freq_ns f,
           h_qtd_rollbacks = count_col reference
             (filter (\<lambda>x. brand_name x = brand_name r \<and>
                          map_option (\<lambda>u. u - u mod freq_ns f) (created_at x) =
                            Some (t - t mod freq_ns f)) facts),
           horario_utc = strftime (t - t mod freq_ns f)\<rparr>)"
proof -
  define fl :: "int \<Rightarrow> int" where "fl = (\<lambda>u. u - u mod freq_ns f)"
  define g :: "row \<Rightarrow> row \<times> int option" where "g = (\<lambda>r. (r, map_option fl (created_at r)))"
  define key2 :: "row \<times> int option \<Rightarrow> (string \<times> int) option"
    where "key2 = (\<lambda>(r, bt). case bt of Some b \<Rightarrow> Some (brand_name r, b) | None \<Rightarrow> None)"
  define col2 :: "row \<times> int option \<Rightarrow> string option" where "col2 = (\<lambda>(r, bt). reference r)"
  define tbl where
    "tbl = sort_values_desc snd (map (\<lambda>(k, grp). (k, count_col col2 grp)) (groupby key2 (map g facts)))"
  from assms obtain bs where bs: "floor_column f (map created_at facts) = Inr bs"
    by (auto simp: horarios_def split: sum.splits)
  have z: "zip facts bs = map g facts"
    unfolding g_def fl_def using bs by (rule zip_floor_column)
  have hs: "hs = map (\<lambda>((b, bt), n). \<lparr>h_brand_name = b, bucket_time = bt, h_qtd_rollbacks = n,
                                 horario_utc = strftime bt\<rparr>) tbl"
    using assms unfolding horarios_def bs sum.case Let_def z tbl_def key2_def col2_def by simp
  have k: "key2 (g r) = Some (b, bt) \<longleftrightarrow>
           brand_name r = b \<and> map_option fl (created_at r) = Some bt" for r b bt
    by (auto simp: key2_def g_def split: option.splits)
  have flt: "filter (\<lambda>p. key2 p = Some (b, bt)) (map g facts) =
             map g (filter (\<lambda>x. brand_name x = b \<and> map_option fl (created_at x) = Some bt) facts)"
    for b bt
    unfolding filter_map comp_def k ..
  have cnt: "count_col col2 (map g xs) = count_col reference xs" for xs
    by (simp add: count_col_def filter_map comp_def col2_def g_def)
  have ex: "(\<exists>p\<in>set (map g facts). key2 p = Some (b, bt)) \<longleftrightarrow>
            (\<exists>r\<in>set facts. brand_name r = b \<and> map_option fl (created_at r) = Some bt)" for b bt
    using k by auto
  have t: "((b, bt), n) \<in> set tbl \<longleftrightarrow>
           (\<exists>r\<in>set facts. brand_name r = b \<and> map_option fl (created_at r) = Some bt) \<and>
           n = count_col reference
                 (filter (\<lambda>x. brand_name x = b \<and> map_option fl (created_at x) = Some bt) facts)"
    for b bt n
    unfolding tbl_def agg_table_set ex flt cnt ..
  show ?thesis
  proof
    assume "h \<in> set hs"
    then obtain b bt n where m: "((b, bt), n) \<in> set tbl"
      and hh: "h = \<lparr>h_brand_name = b, bucket_time = bt, h_qtd_rollbacks = n,
                     horario_utc = strftime bt\<rparr>"
      unfolding hs by auto
    from m t obtain r where r: "r \<in> set facts" "brand_name r = b"
        "map_option fl (created_at r) = Some bt"
      and n: "n = count_col reference
                 (filter (\<lambda>x. brand_name x = b \<and> map_option fl (created_at x) = Some bt) facts)"
      by blast
    from r(3) obtain t' where t': "created_at r = Some t'" "bt = fl t'"
      by auto
    show "\<exists>r\<in>set facts. \<exists>t. created_at r = Some t \<and>
      h = \<lparr>h_brand_name = brand_name r, bucket_time = t - t mod freq_ns f,
           h_qtd_rollbacks = count_col reference
             (filter (\<lambda>x. brand_name x = brand_name r \<and>
                          map_option (\<lambda>u. u - u mod freq_ns f) (created_at x) =
                            Some (t - t mod freq_ns f)) facts),
           horario_utc = strftime (t - t mod freq_ns f)\<rparr>"
      using r(1,2) t' hh n unfolding fl_def by auto
  next
    assume "\<exists>r\<in>set facts. \<exists>t. created_at r = Some t \<and>
      h = \<lparr>h_brand_name = brand_name r, bucket_time = t - t mod freq_ns f,
           h_qtd_rollbacks = count_col reference
             (filter (\<lambda>x. brand_name x = brand_name r \<and>
                          map_option (\<lambda>u. u - u mod freq_ns f) (created_at x) =
                            Some (t - t mod freq_ns f)) facts),
           horario_utc = strftime (t - t mod freq_ns f)\<rparr>"
    then obtain r t' where r: "r \<in> set facts" "created_at r = Some t'"
      and hh: "h = \<lparr>h_brand_name = brand_name r, bucket_time = fl t',
           h_qtd_rollbacks = count_col reference
             (filter (\<lambda>x. brand_name x = brand_name r \<and>
                          map_option fl (created_at x) = Some (fl t')) facts),
           horario_utc = strftime (fl t')\<rparr>"
      unfolding fl_def by blast
    from r have "map_option fl (created_at r) = Some (fl t')" by simp
    with r(1) t[of "brand_name r" "fl t'"]
    have "((brand_name r, fl t'),
           count_col reference
             (filter (\<lambda>x. brand_name x = brand_name r \<and>
                          map_option fl (created_at x) = Some (fl t')) facts))
          \<in> set tbl"
      by blast
    then show "h \<in> set hs"
      unfolding hs hh by force
  qed
qed

lemma horarios_row_of:
  assumes "horarios f facts = Inr hs" and "r \<in> set facts" and "created_at r = Some t"
  shows "\<exists>b. floor_ts f t = Inr b \<and>
           (\<exists>h\<in>set hs. h_brand_name h = brand_name r \<and> bucket_time h = b \<and>
              horario_utc h = strftime b)"
proof -
  let ?b = "t - t mod freq_ns f"
  let ?h = "\<lparr>h_brand_name = brand_name r, bucket_time = ?b,
           h_qtd_rollbacks = count_col reference
             (filter (\<lambda>x. brand_name x = brand_name r \<and>
                          map_option (\<lambda>u. u - u mod freq_ns f) (created_at x) = Some ?b) facts),
           horario_utc = strftime ?b\<rparr>"
  from assms have "?h \<in> set hs"
    unfolding horarios_set[OF assms(1)] by blast
  then have "\<exists>h\<in>set hs. h_brand_name h = brand_name r \<and> bucket_time h = ?b \<and>
              horario_utc h = strftime ?b"
    by force
  with horarios_floors[OF assms] show ?thesis by blast
qed

lemma horarios_row_from:
  assumes "horarios f facts = Inr hs" and "h \<in> set hs"
  shows "horario_utc h = strftime (bucket_time h)"
    and "\<exists>r\<in>set facts. \<exists>t. created_at r = Some t \<and> h_brand_name h = brand_name r \<and>
           floor_ts f t = Inr (bucket_time h)"
proof -
  from assms(2) obtain r t where r: "r \<in> set facts" "created_at r = Some t"
    and h: "h = \<lparr>h_brand_name = brand_name r, bucket_time = t - t mod freq_ns f,
           h_qtd_rollbacks = count_col reference
             (filter (\<lambda>x. brand_name x = brand_name r \<and>
                          map_option (\<lambda>u. u - u mod freq_ns f) (created_at x) =
                            Some (t - t mod freq_ns f)) facts),
           horario_utc = strftime (t - t mod freq_ns f)\<rparr>"
    unfolding horarios_set[OF assms(1)] by blast
  from h show "horario_utc h = strftime (bucket_time h)" by simp
  from h have "h_brand_name h = brand_name r" "bucket_time h = t - t mod freq_ns f" by simp_all
  with r horarios_floors[OF assms(1) r]
  show "\<exists>r\<in>set facts. \<exists>t. created_at r = Some t \<and> h_brand_name h = brand_name r \<and>
           floor_ts f t = Inr (bucket_time h)"
    by auto
qed

lemma horarios_Inr_iff:
  "(\<exists>hs. horarios f facts = Inr hs) \<longleftrightarrow>
   (\<forall>r\<in>set facts. \<forall>t. created_at r = Some t \<longrightarrow> (\<exists>b. floor_ts f t = Inr b))"
proof
  assume "\<exists>hs. horarios f facts = Inr hs"
  then obtain hs where "horarios f facts = Inr hs" ..
  from horarios_floors[OF this]
  show "\<forall>r\<in>set facts. \<forall>t. created_at r = Some t \<longrightarrow> (\<exists>b. floor_ts f t = Inr b)"
    by blast
next
  assume "\<forall>r\<in>set facts. \<forall>t. created_at r = Some t \<longrightarrow> (\<exists>b. floor_ts f t = Inr b)"
  then show "\<exists>hs. horarios f facts = Inr hs" by (rule horarios_total)
qed

lemma example_instant:
  "instant_of 2024 3 1 10 15 42 = 1709288142000000000"
  "floor_ts Freq_H 1709288142000000000 = Inr (instant_of 2024 3 1 10 0 0)"
  "strftime (instant_of 2024 3 1 10 0 0) = ''01/03/2024 10:00''"
  "floor_ts Freq_T 1709288142000000000 = Inr (instant_of 2024 3 1 10 15 0)"
  "strftime (instant_of 2024 3 1 10 15 0) = ''01/03/2024 10:15''"
  by code_simp+

text \<open>
  C9, as the code has it. The instant 2024-03-01T10:15:42Z is floored to
  2024-03-01T10:00:00Z under hour granularity and to 2024-03-01T10:15:00Z under minute
  granularity, and the bucket starts are formatted \<open>01/03/2024 10:00\<close> and
  \<open>01/03/2024 10:15\<close>. The flooring of the column of instants either gives the
  per-time-bucket table or raises \<open>OverflowError\<close>; it gives the table exactly when the
  bucket start of every fact row is a 64-bit nanosecond value, which holds for every
  instant at least one granularity above the least one. When it gives the table, a fact
  row with the example instant has a row there with its brand, that bucket start and that
  text; in general a fact row with instant \<open>t\<close> has a row with its brand, the bucket start
  of \<open>t\<close> and the text \<open>strftime\<close> gives for the bucket start; every row of the table
  comes from such a fact row and carries the text of its bucket start. The bucket start is
  the multiple of the granularity at or below \<open>t\<close> and less than one granularity away from
  it. The text is day, month, year, hour and minute, two digits each and four for the
  year, separated as in \<open>DD/MM/YYYY HH:MM\<close>, of the civil date and time of day in UTC whose
  instant is the bucket start.
\<close>

theorem bucket_flooring:
  "instant_of 2024 3 1 10 15 42 = 1709288142000000000 \<and>
   floor_ts Freq_H 1709288142000000000 = Inr (instant_of 2024 3 1 10 0 0) \<and>
   strftime (instant_of 2024 3 1 10 0 0) = ''01/03/2024 10:00'' \<and>
   floor_ts Freq_T 1709288142000000000 = Inr (instant_of 2024 3 1 10 15 0) \<and>
   strftime (instant_of 2024 3 1 10 15 0) = ''01/03/2024 10:15'' \<and>
   (r \<in> set facts \<and> created_at r = Some 1709288142000000000 \<longrightarrow>
      (horarios Freq_H facts = Inr hs \<longrightarrow>
         (\<exists>h\<in>set hs. h_brand_name h = brand_name r \<and>
            bucket_time h = instant_of 2024 3 1 10 0 0 \<and> horario_utc h = ''01/03/2024 10:00'')) \<and>
      (horarios Freq_T facts = Inr hs \<longrightarrow>
         (\<exists>h\<in>set hs. h_brand_name h = brand_name r \<and>
            bucket_time h = instant_of 2024 3 1 10 15 0 \<and> horario_utc h = ''01/03/2024 10:15''))) \<and>
   (horarios f facts = Inr hs \<longrightarrow>
      (r \<in> set facts \<and> created_at r = Some t \<longrightarrow>
         (\<exists>b. floor_ts f t = Inr b \<and>
            (\<exists>h\<in>set hs. h_brand_name h = brand_name r \<and> bucket_time h = b \<and>
               horario_utc h = strftime b))) \<and>
      (h \<in> set hs \<longrightarrow>
         horario_utc h = strftime (bucket_time h) \<and>
         (\<exists>r\<in>set facts. \<exists>t. created_at r = Some t \<and> h_brand_name h = brand_name r \<and>
            floor_ts f t = Inr (bucket_time h)))) \<and>
   ((\<exists>hs. horarios f facts = Inr hs) \<longleftrightarrow>
      (\<forall>r\<in>set facts. \<forall>t. created_at r = Some t \<longrightarrow> (\<exists>b. floor_ts f t = Inr b))) \<and>
   (horarios f facts = Inl e \<longrightarrow> e = OverflowError) \<and>
   (floor_ts f t = Inr b \<longleftrightarrow>
      b = t - t mod freq_ns f \<and> - (2 ^ 63) \<le> t - t mod freq_ns f \<and> t - t mod freq_ns f < 2 ^ 63) \<and>
   (- (2 ^ 63) + freq_ns f \<le> t \<and> t < 2 ^ 63 \<longrightarrow> floor_ts f t = Inr (t - t mod freq_ns f)) \<and>
   (floor_ts f t = Inr b \<longrightarrow>
      b \<le> t \<and> t < b + freq_ns f \<and> b mod freq_ns f = 0 \<and>
      length (strftime b) = 16 \<and>
      (\<exists>y m d hh mm.
         strftime b =
           pad2 d @ ''/'' @ pad2 m @ ''/'' @ pad4 y @ '' '' @ pad2 hh @ '':'' @ pad2 mm \<and>
         1 \<le> m \<and> m \<le> 12 \<and> 1 \<le> d \<and> d \<le> 31 \<and> 0 \<le> hh \<and> hh \<le> 23 \<and> 0 \<le> mm \<and> mm \<le> 59 \<and>
         instant_of y m d hh mm 0 = b))"
proof -
  have a: "(horarios Freq_H facts = Inr hs \<longrightarrow>
         (\<exists>h\<in>set hs. h_brand_name h = brand_name r \<and>
            bucket_time h = instant_of 2024 3 1 10 0 0 \<and> horario_utc h = ''01/03/2024 10:00'')) \<and>
      (horarios Freq_T facts = Inr hs \<longrightarrow>
         (\<exists>h\<in>set hs. h_brand_name h = brand_name r \<and>
            bucket_time h = instant_of 2024 3 1 10 15 0 \<and> horario_utc h = ''01/03/2024 10:15''))"
    if "r \<in> set facts \<and> created_at r = Some 1709288142000000000"
  proof -
    from that have r: "r \<in> set facts" "created_at r = Some 1709288142000000000" by blast+
    have "\<exists>h\<in>set hs. h_brand_name h = brand_name r \<and>
            bucket_time h = instant_of 2024 3 1 10 0 0 \<and> horario_utc h = ''01/03/2024 10:00''"
      if "horarios Freq_H facts = Inr hs"
      using horarios_row_of[OF that r] unfolding example_instant(2) sum.inject
      by (auto simp only: example_instant(3))
    moreover have "\<exists>h\<in>set hs. h_brand_name h = brand_name r \<and>
            bucket_time h = instant_of 2024 3 1 10 15 0 \<and> horario_utc h = ''01/03/2024 10:15''"
      if "horarios Freq_T facts = Inr hs"
      using horarios_row_of[OF that r] unfolding example_instant(4) sum.inject
      by (auto simp only: example_instant(5))
    ultimately show ?thesis by blast
  qed
  have b: "(r \<in> set facts \<and> created_at r = Some t \<longrightarrow>
         (\<exists>b. floor_ts f t = Inr b \<and>
            (\<exists>h\<in>set hs. h_brand_name h = brand_name r \<and> bucket_time h = b \<and>
               horario_utc h = strftime b))) \<and>
      (h \<in> set hs \<longrightarrow>
         horario_utc h = strftime (bucket_time h) \<and>
         (\<exists>r\<in>set facts. \<exists>t. created_at r = Some t \<and> h_brand_name h = brand_name r \<and>
            floor_ts f t = Inr (bucket_time h)))"
    if "horarios f facts = Inr hs"
    using horarios_row_of[OF that, of r t] horarios_row_from[OF that, of h] by blast
  have c: "e = OverflowError" if "horarios f facts = Inl e"
    using that by (rule horarios_Inl)
  have d: "floor_ts f t = Inr (t - t mod freq_ns f)"
    if "- (2 ^ 63) + freq_ns f \<le> t \<and> t < 2 ^ 63"
    using that floor_ts_in_range[of f t] by blast
  have g: "b \<le> t \<and> t < b + freq_ns f \<and> b mod freq_ns f = 0 \<and>
      length (strftime b) = 16 \<and>
      (\<exists>y m d hh mm.
         strftime b =
           pad2 d @ ''/'' @ pad2 m @ ''/'' @ pad4 y @ '' '' @ pad2 hh @ '':'' @ pad2 mm \<and>
         1 \<le> m \<and> m \<le> 12 \<and> 1 \<le> d \<and> d \<le> 31 \<and> 0 \<le> hh \<and> hh \<le> 23 \<and> 0 \<le> mm \<and> mm \<le> 59 \<and>
         instant_of y m d hh mm 0 = b)"
    if "floor_ts f t = Inr b"
    using floor_ts_bounds(1-3)[OF that] length_strftime[of b] strftime_bucket[OF that]
    by (intro conjI)
  note i = horarios_Inr_iff[of f facts] floor_ts_Inr_iff[of f t b]
  show ?thesis
    apply (intro conjI impI)
    using example_instant a b c d g i by blast+
qed

theorem bucket_flooring_witness:
  "(\<exists>hs. horarios Freq_H [\<lparr>user_id = Some ''u1'', game_name = Some ''g1'', reference = Some ''refA'',
       created_at = Some 1709288142000000000, brand_name = ''7K''\<rparr>] = Inr hs \<and>
      (\<exists>h\<in>set hs. h_brand_name h = ''7K'' \<and> bucket_time h = instant_of 2024 3 1 10 0 0 \<and>
         horario_utc h = ''01/03/2024 10:00'') \<and>
      \<lparr>h_brand_name = ''7K'', bucket_time = 1709287200000000000, h_qtd_rollbacks = 1,
       horario_utc = ''01/03/2024 10:00''\<rparr> \<in> set hs) \<and>
   (\<exists>hs. horarios Freq_T [\<lparr>user_id = Some ''u1'', game_name = Some ''g1'', reference = Some ''refA'',
       created_at = Some 1709288142000000000, brand_name = ''7K''\<rparr>] = Inr hs \<and>
      (\<exists>h\<in>set hs. h_brand_name h = ''7K'' \<and> bucket_time h = instant_of 2024 3 1 10 15 0 \<and>
         horario_utc h = ''01/03/2024 10:15'')) \<and>
   floor_ts Freq_H 1709288142000000000 = Inr 1709287200000000000 \<and>
   strftime 1709287200000000000 = ''01/03/2024 10:00'' \<and>
   length (strftime 1709287200000000000) = 16"
proof -
  let ?r = "\<lparr>user_id = Some ''u1'', game_name = Some ''g1'', reference = Some ''refA'',
       created_at = Some 1709288142000000000, brand_name = ''7K''\<rparr>"
  let ?h = "\<lparr>h_brand_name = ''7K'', bucket_time = 1709287200000000000, h_qtd_rollbacks = 1,
       horario_utc = ''01/03/2024 10:00''\<rparr>"
  let ?t = "1709288142000000000 :: int"
  let ?b = "1709287200000000000 :: int"
  have p: "?r \<in> set [?r] \<and> created_at ?r = Some ?t" by simp
  have bn: "brand_name ?r = ''7K''" by simp
  have fl: "floor_ts Freq_H ?t = Inr ?b" by code_simp
  have rg: "- (2 ^ 63) + freq_ns f \<le> ?t \<and> ?t < 2 ^ 63" for f
    by (cases f) (simp_all add: freq_ns_def)
  have ok: "\<forall>r\<in>set [?r]. \<forall>t. created_at r = Some t \<longrightarrow> (\<exists>b. floor_ts f t = Inr b)" for f
  proof -
    note t = bucket_flooring[where f = f and t = ?t and facts = "[?r]" and r = ?r and h = ?h
        and b = ?b and hs = "[]" and e = OverflowError]
    from t rg[of f] have "floor_ts f ?t = Inr (?t - ?t mod freq_ns f)" by blast
    then show ?thesis by simp
  qed
  obtain hsH where hsH: "horarios Freq_H [?r] = Inr hsH"
    using bucket_flooring[where f = Freq_H and t = ?t and facts = "[?r]" and r = ?r and h = ?h
        and b = ?b and hs = "[]" and e = OverflowError] ok[of Freq_H]
    by blast
  obtain hsT where hsT: "horarios Freq_T [?r] = Inr hsT"
    using bucket_flooring[where f = Freq_T and t = ?t and facts = "[?r]" and r = ?r and h = ?h
        and b = ?b and hs = "[]" and e = OverflowError] ok[of Freq_T]
    by blast
  note tH = bucket_flooring[where f = Freq_H and t = ?t and facts = "[?r]" and r = ?r and h = ?h
        and b = ?b and hs = hsH and e = OverflowError]
  note tT = bucket_flooring[where f = Freq_T and t = ?t and facts = "[?r]" and r = ?r and h = ?h
        and b = ?b and hs = hsT and e = OverflowError]
  from tH p hsH have eH: "\<exists>h\<in>set hsH. h_brand_name h = brand_name ?r \<and>
      bucket_time h = instant_of 2024 3 1 10 0 0 \<and> horario_utc h = ''01/03/2024 10:00''"
    by blast
  from tT p hsT have eT: "\<exists>h\<in>set hsT. h_brand_name h = brand_name ?r \<and>
      bucket_time h = instant_of 2024 3 1 10 15 0 \<and> horario_utc h = ''01/03/2024 10:15''"
    by blast
  from tH p hsH have "\<exists>b. floor_ts Freq_H ?t = Inr b \<and>
      (\<exists>h\<in>set hsH. h_brand_name h = brand_name ?r \<and> bucket_time h = b \<and>
         horario_utc h = strftime b)"
    by blast
  then obtain h where h: "h \<in> set hsH" "h_brand_name h = ''7K''" "bucket_time h = ?b"
    "horario_utc h = strftime ?b"
    unfolding fl sum.inject bn by blast
  have n: "count_col reference [?r] = 1" by code_simp
  from h(1) have "h_qtd_rollbacks h = 1"
    unfolding horarios_set[OF hsH] using n by (auto simp: freq_ns_def)
  moreover have sf: "strftime ?b = ''01/03/2024 10:00''" by code_simp
  ultimately have "h = ?h" using h(2-4) by simp
  with h(1) have m: "?h \<in> set hsH" by simp
  from tH hsH m have "horario_utc ?h = strftime (bucket_time ?h)" by blast
  from tH fl have "length (strftime ?b) = 16" by blast
  with eH eT m hsH hsT fl sf show ?thesis unfolding bn by blast
qed

text \<open>
  C9 as stated does not hold of every fact row: the flooring is done on 64-bit nanosecond
  values, and for an instant less than one granularity above the least one the bucket start
  is not such a value. The instant 1677-09-21T00:12:44Z is a 64-bit nanosecond value; its
  hour and its minute are not, \<open>dt.floor\<close> raises \<open>OverflowError\<close> for it, and with one
  fact row of that instant the script builds no per-time-bucket table, whatever the other
  rows are.
\<close>

theorem bucket_flooring_overflow:
  "instant_of 1677 9 21 0 12 44 = - 9223372036000000000 \<and>
   - (2 ^ 63) \<le> (- 9223372036000000000 :: int) \<and>
   floor_ts Freq_H (- 9223372036000000000) = Inl OverflowError \<and>
   floor_ts Freq_T (- 9223372036000000000) = Inl OverflowError \<and>
   horarios Freq_H [\<lparr>user_id = Some ''u1'', game_name = Some ''g1'', reference = Some ''refA'',
       created_at = Some 1709288142000000000, brand_name = ''7K''\<rparr>,
      \<lparr>user_id = Some ''u9'', game_name = Some ''g9'', reference = Some ''refZ'',
       created_at = Some (- 9223372036000000000), brand_name = ''7K''\<rparr>] = Inl OverflowError \<and>
   horarios Freq_T [\<lparr>user_id = Some ''u1'', game_name = Some ''g1'', reference = Some ''refA'',
       created_at = Some 1709288142000000000, brand_name = ''7K''\<rparr>,
      \<lparr>user_id = Some ''u9'', game_name = Some ''g9'', reference = Some ''refZ'',
       created_at = Some (- 9223372036000000000), brand_name = ''7K''\<rparr>] = Inl OverflowError \<and>
   compute Freq_H [\<lparr>user_id = Some ''u1'', game_name = Some ''g1'', reference = Some ''refA'',
       created_at = Some 1709288142000000000, brand_name = ''7K''\<rparr>,
      \<lparr>user_id = Some ''u9'', game_name = Some ''g9'', reference = Some ''refZ'',
       created_at = Some (- 9223372036000000000), brand_name = ''7K''\<rparr>] = Inl OverflowError"
proof -
  let ?r = "\<lparr>user_id = Some ''u9'', game_name = Some ''g9'', reference = Some ''refZ'',
       created_at = Some (- 9223372036000000000), brand_name = ''7K''\<rparr>"
  let ?facts = "[\<lparr>user_id = Some ''u1'', game_name = Some ''g1'', reference = Some ''refA'',
       created_at = Some 1709288142000000000, brand_name = ''7K''\<rparr>,
      \<lparr>user_id = Some ''u9'', game_name = Some ''g9'', reference = Some ''refZ'',
       created_at = Some (- 9223372036000000000), brand_name = ''7K''\<rparr>]"
  have i: "instant_of 1677 9 21 0 12 44 = - 9223372036000000000" by code_simp
  have r: "- (2 ^ 63) \<le> (- 9223372036000000000 :: int)" by simp
  have fH: "floor_ts Freq_H (- 9223372036000000000) = Inl OverflowError" by code_simp
  have fT: "floor_ts Freq_T (- 9223372036000000000) = Inl OverflowError" by code_simp
  have m: "?r \<in> set ?facts" by simp
  have c: "created_at ?r = Some (- 9223372036000000000)" by simp
  have hH: "horarios Freq_H ?facts = Inl OverflowError"
    using m c fH by (rule horarios_overflow)
  have hT: "horarios Freq_T ?facts = Inl OverflowError"
    using m c fT by (rule horarios_overflow)
  have rb: "refs_brand ?facts = ?facts" by code_simp
  have cH: "compute Freq_H ?facts = Inl OverflowError"
    unfolding compute_def Let_def rb hH by simp
  from i r fH fT hH hT cH show ?thesis by blast
qed


end
